theory Spec2Isabelle
  imports Main
begin

section \<open>Contact manager: the verification client, the contact table and the handlers\<close>

text \<open>
  The development follows \<^verbatim>\<open>backend/main.py\<close>. Every handler is a function of the
  configuration and the external service (\<open>env\<close>), of what the libraries under it do
  where the source does not say (\<open>platform\<close>), of the contact table before the request
  and of the validated request object; it returns the reply, the table after the request
  and the trace of the calls the claims speak about. Python values that the code passes on
  without looking at them are kept as they are; exceptions are values of \<open>exn\<close>. A
  string is a well-formed text, given as the list of its characters.
\<close>

subsection \<open>Python values and exceptions\<close>

text \<open>
  What \<^verbatim>\<open>response.json()\<close> can return. An object is the list of its items (a Python
  dict, so its keys are distinct); a float is kept as its literal, since the code never
  computes with it. \<open>JNull\<close> is Python's \<^verbatim>\<open>None\<close>.
\<close>

datatype json =
    JNull
  | JBool bool
  | JInt int
  | JFloat string
  | JStr string
  | JArr "json list"
  | JObj "(string \<times> json) list"

text \<open>
  The exception classes that can arise in the code, all of them subclasses of
  \<^verbatim>\<open>Exception\<close>. Cancellation of the request's task and interpreter exit are events of
  the scheduler, not outcomes of a call, and are not modelled.
\<close>

datatype exn =
    HTTPStatusError
  | RequestError
  | JSONDecodeError
  | KeyError
  | TypeError
  | AttributeError
  | IntegrityError
  | OverflowError
  | ProgrammingError
  | OperationalError
  | OtherException string

text \<open>\<^verbatim>\<open>data[k]\<close>: a dict raises KeyError on a missing key, every other value TypeError.\<close>

fun getitem :: "json \<Rightarrow> string \<Rightarrow> exn + json" where
  "getitem (JObj items) k = (case map_of items k of None \<Rightarrow> Inl KeyError | Some v \<Rightarrow> Inr v)"
| "getitem _ k = Inl TypeError"

text \<open>\<^verbatim>\<open>d.get(k, default)\<close>: only a dict has the method.\<close>

fun dict_get :: "json \<Rightarrow> string \<Rightarrow> json \<Rightarrow> exn + json" where
  "dict_get (JObj items) k dflt = Inr (case map_of items k of None \<Rightarrow> dflt | Some v \<Rightarrow> v)"
| "dict_get _ k dflt = Inl AttributeError"

subsection \<open>The external service\<close>

record http_response =
  status_code :: nat
  body :: "json option"  \<comment> \<open>\<open>None\<close>: the body is not JSON\<close>

datatype get_outcome = Returns http_response | Raises exn

text \<open>\<^verbatim>\<open>raise_for_status\<close> of httpx raises unless the status is a 2xx one.\<close>

definition raise_for_status :: "http_response \<Rightarrow> exn + unit" where
  "raise_for_status r =
     (if 200 \<le> status_code r \<and> status_code r < 300 then Inr () else Inl HTTPStatusError)"

definition response_json :: "http_response \<Rightarrow> exn + json" where
  "response_json r = (case body r of None \<Rightarrow> Inl JSONDecodeError | Some d \<Rightarrow> Inr d)"

text \<open>
  The environment of a request: the module constant \<^verbatim>\<open>HUNTER_API_KEY\<close> (always a string:
  the variable's value or the default \<^verbatim>\<open>"MOCK_KEY_IF_NOT_SET"\<close>) and what the one
  \<^verbatim>\<open>client.get(url)\<close> of the request does.
\<close>

record env =
  HUNTER_API_KEY :: string
  client_get :: "string \<Rightarrow> get_outcome"

datatype event =
    Verify string             \<comment> \<open>\<^verbatim>\<open>verify_email_hunter\<close> was called with this email\<close>
  | HttpGet string            \<comment> \<open>a GET was sent to this URL\<close>
  | SelectByEmail "string option"  \<comment> \<open>the table was searched for this email\<close>

record verification =
  score :: json
  status :: string

definition hunter_url :: "string \<Rightarrow> string \<Rightarrow> string" where
  "hunter_url key email_str =
     ''https://api.hunter.io/v2/email-verifier?email='' @ email_str @ ''&api_key='' @ key"

text \<open>The body of the \<^verbatim>\<open>try\<close> block: every statement that can raise is a branch.\<close>

definition try_body :: "env \<Rightarrow> string \<Rightarrow> exn + verification" where
  "try_body e url =
     (case client_get e url of
        Raises x \<Rightarrow> Inl x
      | Returns r \<Rightarrow>
          (case raise_for_status r of
             Inl x \<Rightarrow> Inl x
           | Inr _ \<Rightarrow>
               (case response_json r of
                  Inl x \<Rightarrow> Inl x
                | Inr data \<Rightarrow>
                    (case getitem data ''data'' of
                       Inl x \<Rightarrow> Inl x
                     | Inr d \<Rightarrow>
                         (case dict_get d ''score'' (JInt 50) of
                            Inl x \<Rightarrow> Inl x
                          | Inr s \<Rightarrow> Inr \<lparr>score = s, status = ''verified''\<rparr>)))))"

text \<open>The three \<^verbatim>\<open>except\<close> clauses, in the source's order.\<close>

fun except_clauses :: "exn \<Rightarrow> exn + verification" where
  "except_clauses HTTPStatusError = Inr \<lparr>score = JInt 40, status = ''api_error''\<rparr>"
| "except_clauses RequestError = Inr \<lparr>score = JInt 45, status = ''network_error''\<rparr>"
| "except_clauses _ = Inr \<lparr>score = JInt 48, status = ''unexpected_error''\<rparr>"

text \<open>
  \<open>Inl\<close> would be an exception that leaves the function. The trace records the call
  itself and the GET, when one is sent.
\<close>

definition verify_email_hunter :: "env \<Rightarrow> string \<Rightarrow> (exn + verification) \<times> event list" where
  "verify_email_hunter e email_str =
     (if HUNTER_API_KEY e = [] \<or> HUNTER_API_KEY e = ''MOCK_KEY_IF_NOT_SET''
      then (Inr \<lparr>score = JInt 50, status = ''mocked_key''\<rparr>, [Verify email_str])
      else
        (let url = hunter_url (HUNTER_API_KEY e) email_str in
         ((case try_body e url of Inr v \<Rightarrow> Inr v | Inl x \<Rightarrow> except_clauses x),
          [Verify email_str, HttpGet url])))"

subsection \<open>The data model\<close>

text \<open>
  A field of \<^verbatim>\<open>ContactUpdate\<close> as \<^verbatim>\<open>model_dump(exclude_unset=True)\<close> shows it:
  \<open>Unset\<close> when the request did not name the field (the key is not in
  \<^verbatim>\<open>update_data\<close>), \<open>Given v\<close> when it did; \<open>Given None\<close> is an explicit
  \<^verbatim>\<open>null\<close>, which the schema accepts for every field.
\<close>

datatype 'a field = Unset | Given 'a

record contact_update =
  first_name :: "string option field"
  last_name :: "string option field"
  email :: "string option field"
  phone :: "string option field"

record contact_create =
  first_name :: string
  last_name :: string
  email :: string
  phone :: "string option"

text \<open>
  A row of the table \<^verbatim>\<open>contacts\<close>. \<open>hunter_score\<close> is the value read back from the
  column: the column is declared \<^verbatim>\<open>Optional[int]\<close>, which neither Python nor SQLite
  enforces, so it can hold a text or a real as well.
\<close>

record contact = contact_create +
  id' :: int
  hunter_score :: json

subsection \<open>What the libraries do\<close>

text \<open>
  Three things are decided by libraries whose code is not part of the repository, and
  are taken as parameters: what SQLite's INTEGER affinity makes of a text or a real bound
  to the column \<open>hunter_score\<close> (the text \<^verbatim>\<open>91\<close> and the real \<^verbatim>\<open>91.0\<close> become the
  integer 91, other texts stay as they are), the unused row id the engine finds by random
  search once the largest id is taken (if it finds one), and what \<^verbatim>\<open>EmailStr\<close> makes
  of a string (the normalised address, or nothing when it is not one).
\<close>

record platform =
  integer_affinity :: "json \<Rightarrow> json"
  random_rowid :: "int option"
  validate_email :: "string \<Rightarrow> string option"

text \<open>The integers the engine's binding accepts: signed 64-bit.\<close>

definition int64 :: "int \<Rightarrow> bool" where
  "int64 i \<longleftrightarrow> - (2 ^ 63) \<le> i \<and> i < 2 ^ 63"

text \<open>
  A value bound to the column \<open>hunter_score\<close>, as it is read back after the commit. A
  Python \<^verbatim>\<open>bool\<close> is an \<^verbatim>\<open>int\<close>; an integer outside 64 bits raises
  \<^verbatim>\<open>OverflowError\<close>; a list or a dict cannot be bound at all.
\<close>

fun bind_score :: "platform \<Rightarrow> json \<Rightarrow> exn + json" where
  "bind_score p JNull = Inr JNull"
| "bind_score p (JBool b) = Inr (JInt (if b then 1 else 0))"
| "bind_score p (JInt i) = (if int64 i then Inr (JInt i) else Inl OverflowError)"
| "bind_score p (JFloat f) = Inr (integer_affinity p (JFloat f))"
| "bind_score p (JStr s) = Inr (integer_affinity p (JStr s))"
| "bind_score p (JArr xs) = Inl ProgrammingError"
| "bind_score p (JObj items) = Inl ProgrammingError"

subsection \<open>The table\<close>

text \<open>
  The table is the list of its rows. The queries are those of the handlers; the engine is
  SQLite, whose rules are written out where a handler depends on them: an integer
  parameter must fit 64 bits, a new row gets the largest id plus one (1 in an empty
  table), \<^verbatim>\<open>email = NULL\<close> selects nothing, the columns \<open>first_name\<close>, \<open>last_name\<close>
  and \<open>email\<close> are \<^verbatim>\<open>NOT NULL\<close>, \<open>email\<close> is \<^verbatim>\<open>UNIQUE\<close>, a negative
  \<^verbatim>\<open>LIMIT\<close> is no limit and a negative \<^verbatim>\<open>OFFSET\<close> is 0.
\<close>

type_synonym table = "contact list"

definition select_by_id :: "table \<Rightarrow> int \<Rightarrow> exn + contact option" where
  "select_by_id db i =
     (if int64 i then Inr (find (\<lambda>c. id' c = i) db) else Inl OverflowError)"

definition select_by_email :: "table \<Rightarrow> string option \<Rightarrow> contact option" where
  "select_by_email db v =
     (case v of None \<Rightarrow> None | Some a \<Rightarrow> find (\<lambda>c. email c = a) db)"

text \<open>
  The id of a new row. When the largest id is the largest integer, the engine looks for
  an unused positive id at random and gives up if it finds none.
\<close>

definition next_id :: "platform \<Rightarrow> table \<Rightarrow> int option" where
  "next_id p db =
     (case db of
        [] \<Rightarrow> Some 1
      | c # cs \<Rightarrow>
          (let largest = fold max (map id' cs) (id' c)
           in if largest < 2 ^ 63 - 1 then Some (largest + 1)
              else (case random_rowid p of
                      None \<Rightarrow> None
                    | Some r \<Rightarrow>
                        if 0 < r \<and> r < 2 ^ 63 \<and> find (\<lambda>x. id' x = r) db = None
                        then Some r else None)))"

text \<open>\<^verbatim>\<open>db.add(obj); db.commit(); db.refresh(obj)\<close> for a new object.\<close>

definition insert_row ::
  "platform \<Rightarrow> table \<Rightarrow> contact_create \<Rightarrow> json \<Rightarrow> exn + contact \<times> table" where
  "insert_row p db c hs =
     (case bind_score p hs of
        Inl x \<Rightarrow> Inl x
      | Inr stored \<Rightarrow>
          if find (\<lambda>r. email r = email c) db = None
          then (case next_id p db of
                  None \<Rightarrow> Inl OperationalError
                | Some i \<Rightarrow>
                    (let new = \<lparr>first_name = first_name c, last_name = last_name c,
                                email = email c, phone = phone c, id' = i,
                                hunter_score = stored\<rparr>
                     in Inr (new, db @ [new])))
          else Inl IntegrityError)"

text \<open>
  \<^verbatim>\<open>db.commit(); db.refresh(obj)\<close> after the attributes of a loaded object were
  assigned. \<open>c\<close> holds the assigned names, email and phone; \<open>hs\<close> is the score
  assigned when it is a new one (an attribute assigned its own value is not written).
\<close>

definition update_row ::
  "platform \<Rightarrow> table \<Rightarrow> contact \<Rightarrow> json option \<Rightarrow> exn + contact \<times> table" where
  "update_row p db c hs =
     (case (case hs of None \<Rightarrow> Inr (hunter_score c) | Some v \<Rightarrow> bind_score p v) of
        Inl x \<Rightarrow> Inl x
      | Inr stored \<Rightarrow>
          if find (\<lambda>r. id' r \<noteq> id' c \<and> email r = email c) db = None
          then (let c' = c\<lparr>hunter_score := stored\<rparr>
                in Inr (c', map (\<lambda>r. if id' r = id' c then c' else r) db))
          else Inl IntegrityError)"

text \<open>\<^verbatim>\<open>delete(Contact).where(Contact.id == i)\<close>: the rows left and the row count.\<close>

definition delete_rows :: "table \<Rightarrow> int \<Rightarrow> exn + table \<times> nat" where
  "delete_rows db i =
     (if int64 i
      then Inr (filter (\<lambda>c. id' c \<noteq> i) db, length (filter (\<lambda>c. id' c = i) db))
      else Inl OverflowError)"

definition sql_offset :: "int \<Rightarrow> 'a list \<Rightarrow> 'a list" where
  "sql_offset n xs = (if n < 0 then xs else drop (nat n) xs)"

definition sql_limit :: "int \<Rightarrow> 'a list \<Rightarrow> 'a list" where
  "sql_limit n xs = (if n < 0 then xs else take (nat n) xs)"

text \<open>\<^verbatim>\<open>select(Contact).offset(skip).limit(limit).order_by(Contact.id)\<close>.\<close>

definition select_page :: "table \<Rightarrow> int \<Rightarrow> int \<Rightarrow> exn + contact list" where
  "select_page db skip limit =
     (if int64 skip \<and> int64 limit
      then Inr (sql_limit limit (sql_offset skip (sort_key id' db)))
      else Inl OverflowError)"

subsection \<open>Replies\<close>

datatype http_error = NotFound | Conflict | UnprocessableEntity | InternalServerError

fun http_status :: "http_error \<Rightarrow> nat" where
  "http_status NotFound = 404"
| "http_status Conflict = 409"
| "http_status UnprocessableEntity = 422"
| "http_status InternalServerError = 500"

text \<open>
  What a handler leaves behind: the object it returns, or the status of the exception
  that leaves it (\<open>Inl\<close>: the status of its \<^verbatim>\<open>HTTPException\<close>, or 500 for an
  exception nobody catches), the table and the trace. A request that raises commits
  nothing.
\<close>

record 'a outcome =
  result :: "http_error + 'a"
  store :: table
  trace :: "event list"

definition failed :: "http_error \<Rightarrow> table \<Rightarrow> event list \<Rightarrow> 'a outcome" where
  "failed err db tr = \<lparr>result = Inl err, store = db, trace = tr\<rparr>"

subsection \<open>Startup\<close>

definition seed_contacts :: table where
  "seed_contacts =
     [\<lparr>first_name = ''Alice'', last_name = ''Smith'', email = ''alice@example.com'',
       phone = Some ''555-1234'', id' = 1, hunter_score = JInt 85\<rparr>,
      \<lparr>first_name = ''Bob'', last_name = ''Johnson'', email = ''bob.j@test.org'',
       phone = None, id' = 2, hunter_score = JInt 45\<rparr>]"

definition on_startup :: "table \<Rightarrow> table" where
  "on_startup db = (case db of [] \<Rightarrow> seed_contacts | _ # _ \<Rightarrow> db)"

subsection \<open>The handlers\<close>

definition create_contact ::
  "env \<Rightarrow> platform \<Rightarrow> table \<Rightarrow> contact_create \<Rightarrow> contact outcome" where
  "create_contact e p db contact_in =
     (case verify_email_hunter e (email contact_in) of
        (Inl x, tr) \<Rightarrow> failed InternalServerError db tr
      | (Inr verification_result, tr) \<Rightarrow>
          (let hs = score verification_result;
               tr' = tr @ [SelectByEmail (Some (email contact_in))]
           in case select_by_email db (Some (email contact_in)) of
                Some _ \<Rightarrow> failed Conflict db tr'
              | None \<Rightarrow>
                  (case insert_row p db contact_in hs of
                     Inl x \<Rightarrow> failed InternalServerError db tr'
                   | Inr (db_contact, db') \<Rightarrow>
                       \<lparr>result = Inr db_contact, store = db', trace = tr'\<rparr>)))"

definition read_contacts :: "table \<Rightarrow> int \<Rightarrow> int \<Rightarrow> http_error + contact list" where
  "read_contacts db skip limit =
     (case select_page db skip limit of
        Inl x \<Rightarrow> Inl InternalServerError
      | Inr contacts \<Rightarrow> Inr contacts)"

definition read_contact :: "table \<Rightarrow> int \<Rightarrow> http_error + contact" where
  "read_contact db contact_id =
     (case select_by_id db contact_id of
        Inl x \<Rightarrow> Inl InternalServerError
      | Inr None \<Rightarrow> Inl NotFound
      | Inr (Some c) \<Rightarrow> Inr c)"

text \<open>The end of both update handlers: commit, refresh, return the object.\<close>

definition commit_object ::
  "platform \<Rightarrow> table \<Rightarrow> contact \<Rightarrow> json option \<Rightarrow> event list \<Rightarrow> contact outcome" where
  "commit_object p db c hs tr =
     (case update_row p db c hs of
        Inl x \<Rightarrow> failed InternalServerError db tr
      | Inr (c', db') \<Rightarrow> \<lparr>result = Inr c', store = db', trace = tr\<rparr>)"

definition update_contact_put ::
  "env \<Rightarrow> platform \<Rightarrow> table \<Rightarrow> int \<Rightarrow> contact_create \<Rightarrow> contact outcome" where
  "update_contact_put e p db contact_id contact_in =
     (case select_by_id db contact_id of
        Inl x \<Rightarrow> failed InternalServerError db []
      | Inr None \<Rightarrow> failed NotFound db []
      | Inr (Some db_contact) \<Rightarrow>
          (let assigned = db_contact\<lparr>first_name := first_name contact_in,
                                      last_name := last_name contact_in,
                                      email := email contact_in,
                                      phone := phone contact_in\<rparr>
           in if email db_contact \<noteq> email contact_in
              then
                (let tr = [SelectByEmail (Some (email contact_in))]
                 in case select_by_email db (Some (email contact_in)) of
                      Some _ \<Rightarrow> failed Conflict db tr
                    | None \<Rightarrow>
                        (case verify_email_hunter e (email contact_in) of
                           (Inl x, tr') \<Rightarrow> failed InternalServerError db (tr @ tr')
                         | (Inr verification_result, tr') \<Rightarrow>
                             commit_object p db assigned
                               (Some (score verification_result)) (tr @ tr')))
              else commit_object p db assigned None []))"

text \<open>
  \<^verbatim>\<open>setattr\<close> accepts \<^verbatim>\<open>None\<close> for any attribute; the commit that follows raises
  for a \<^verbatim>\<open>NOT NULL\<close> column. \<open>not_null\<close> is the value written to such a column,
  \<open>nullable\<close> the one written to \<open>phone\<close>.
\<close>

fun not_null :: "string option field \<Rightarrow> string \<Rightarrow> exn + string" where
  "not_null Unset old = Inr old"
| "not_null (Given (Some s)) old = Inr s"
| "not_null (Given None) old = Inl IntegrityError"

fun nullable :: "string option field \<Rightarrow> string option \<Rightarrow> string option" where
  "nullable Unset old = old"
| "nullable (Given v) old = v"

text \<open>
  The loop over \<^verbatim>\<open>update_data.items()\<close> for the four fields of the request; the entry
  \<^verbatim>\<open>'hunter_score'\<close>, present only when the handler added it, goes to the commit.
\<close>

definition apply_update_data :: "contact \<Rightarrow> contact_update \<Rightarrow> exn + contact" where
  "apply_update_data c u =
     (case not_null (contact_update.first_name u) (first_name c) of
        Inl x \<Rightarrow> Inl x
      | Inr fn \<Rightarrow>
          (case not_null (contact_update.last_name u) (last_name c) of
             Inl x \<Rightarrow> Inl x
           | Inr ln \<Rightarrow>
               (case not_null (contact_update.email u) (email c) of
                  Inl x \<Rightarrow> Inl x
                | Inr em \<Rightarrow>
                    Inr (c\<lparr>first_name := fn, last_name := ln, email := em,
                           phone := nullable (contact_update.phone u) (phone c)\<rparr>))))"

definition apply_and_commit ::
  "platform \<Rightarrow> table \<Rightarrow> contact \<Rightarrow> contact_update \<Rightarrow> json option \<Rightarrow> event list
     \<Rightarrow> contact outcome" where
  "apply_and_commit p db db_contact u hs tr =
     (case apply_update_data db_contact u of
        Inl x \<Rightarrow> failed InternalServerError db tr
      | Inr c \<Rightarrow> commit_object p db c hs tr)"

text \<open>The f-string writes \<^verbatim>\<open>None\<close> as the text \<^verbatim>\<open>None\<close>.\<close>

fun py_str :: "string option \<Rightarrow> string" where
  "py_str None = ''None''"
| "py_str (Some s) = s"

definition update_contact_patch ::
  "env \<Rightarrow> platform \<Rightarrow> table \<Rightarrow> int \<Rightarrow> contact_update \<Rightarrow> contact outcome" where
  "update_contact_patch e p db contact_id contact_in =
     (case select_by_id db contact_id of
        Inl x \<Rightarrow> failed InternalServerError db []
      | Inr None \<Rightarrow> failed NotFound db []
      | Inr (Some db_contact) \<Rightarrow>
          (case contact_update.email contact_in of
             Unset \<Rightarrow> apply_and_commit p db db_contact contact_in None []
           | Given v \<Rightarrow>
               if v \<noteq> Some (email db_contact)
               then
                 (let tr = [SelectByEmail v]
                  in case select_by_email db v of
                       Some _ \<Rightarrow> failed Conflict db tr
                     | None \<Rightarrow>
                         (case verify_email_hunter e (py_str v) of
                            (Inl x, tr') \<Rightarrow> failed InternalServerError db (tr @ tr')
                          | (Inr verification_result, tr') \<Rightarrow>
                              apply_and_commit p db db_contact contact_in
                                (Some (score verification_result)) (tr @ tr')))
               else apply_and_commit p db db_contact contact_in None []))"

definition delete_contact :: "table \<Rightarrow> int \<Rightarrow> string outcome" where
  "delete_contact db contact_id =
     (case delete_rows db contact_id of
        Inl x \<Rightarrow> failed InternalServerError db []
      | Inr (db', rowcount) \<Rightarrow>
          if rowcount = 0 then failed NotFound db []
          else \<lparr>result = Inr ''Contact deleted'', store = db', trace = []\<rparr>)"
subsection \<open>Request bodies\<close>

text \<open>
  The framework builds the request object from the JSON body with the schema class:
  the body must be an object, each declared field is looked up by its name and checked
  against its annotation, and a member the class does not declare is ignored (the
  classes set no \<^verbatim>\<open>extra\<close> policy). A body that does not pass is answered with 422
  before the handler runs.
\<close>

fun str_value :: "json \<Rightarrow> string option" where
  "str_value (JStr s) = Some s"
| "str_value _ = None"

text \<open>\<^verbatim>\<open>str\<close> with \<^verbatim>\<open>min_length=2\<close>, and \<^verbatim>\<open>EmailStr\<close>.\<close>

definition name_value :: "json \<Rightarrow> string option" where
  "name_value j = (case str_value j of
                     None \<Rightarrow> None
                   | Some s \<Rightarrow> if 2 \<le> length s then Some s else None)"

definition email_value :: "platform \<Rightarrow> json \<Rightarrow> string option" where
  "email_value p j = (case str_value j of None \<Rightarrow> None | Some s \<Rightarrow> validate_email p s)"

text \<open>A required field: absent, \<^verbatim>\<open>null\<close> and ill-typed are all errors.\<close>

definition required :: "(json \<Rightarrow> string option) \<Rightarrow> json option \<Rightarrow> string option" where
  "required check member = (case member of None \<Rightarrow> None | Some j \<Rightarrow> check j)"

text \<open>
  An \<^verbatim>\<open>Optional\<close> field with default \<^verbatim>\<open>None\<close>: \<open>None\<close> is a validation error,
  \<open>Some Unset\<close> an absent member, \<open>Some (Given None)\<close> an explicit \<^verbatim>\<open>null\<close>.
\<close>

definition optional ::
  "(json \<Rightarrow> string option) \<Rightarrow> json option \<Rightarrow> string option field option" where
  "optional check member =
     (case member of
        None \<Rightarrow> Some Unset
      | Some JNull \<Rightarrow> Some (Given None)
      | Some j \<Rightarrow> (case check j of None \<Rightarrow> None | Some s \<Rightarrow> Some (Given (Some s))))"

definition parse_contact_create :: "platform \<Rightarrow> json \<Rightarrow> contact_create option" where
  "parse_contact_create p payload =
     (case payload of
        JObj items \<Rightarrow>
          (case (required name_value (map_of items ''first_name''),
                 required name_value (map_of items ''last_name''),
                 required (email_value p) (map_of items ''email''),
                 optional str_value (map_of items ''phone'')) of
             (Some fn, Some ln, Some em, Some ph) \<Rightarrow>
               Some \<lparr>first_name = fn, last_name = ln, email = em, phone = nullable ph None\<rparr>
           | _ \<Rightarrow> None)
      | _ \<Rightarrow> None)"

definition parse_contact_update :: "platform \<Rightarrow> json \<Rightarrow> contact_update option" where
  "parse_contact_update p payload =
     (case payload of
        JObj items \<Rightarrow>
          (case (optional name_value (map_of items ''first_name''),
                 optional name_value (map_of items ''last_name''),
                 optional (email_value p) (map_of items ''email''),
                 optional str_value (map_of items ''phone'')) of
             (Some fn, Some ln, Some em, Some ph) \<Rightarrow>
               Some \<lparr>contact_update.first_name = fn, last_name = ln, email = em, phone = ph\<rparr>
           | _ \<Rightarrow> None)
      | _ \<Rightarrow> None)"

text \<open>The three writing routes: the request object is built, then the handler runs.\<close>

definition post_contacts :: "env \<Rightarrow> platform \<Rightarrow> table \<Rightarrow> json \<Rightarrow> contact outcome" where
  "post_contacts e p db payload =
     (case parse_contact_create p payload of
        None \<Rightarrow> failed UnprocessableEntity db []
      | Some contact_in \<Rightarrow> create_contact e p db contact_in)"

definition put_contacts ::
  "env \<Rightarrow> platform \<Rightarrow> table \<Rightarrow> int \<Rightarrow> json \<Rightarrow> contact outcome" where
  "put_contacts e p db contact_id payload =
     (case parse_contact_create p payload of
        None \<Rightarrow> failed UnprocessableEntity db []
      | Some contact_in \<Rightarrow> update_contact_put e p db contact_id contact_in)"

definition patch_contacts ::
  "env \<Rightarrow> platform \<Rightarrow> table \<Rightarrow> int \<Rightarrow> json \<Rightarrow> contact outcome" where
  "patch_contacts e p db contact_id payload =
     (case parse_contact_update p payload of
        None \<Rightarrow> failed UnprocessableEntity db []
      | Some contact_in \<Rightarrow> update_contact_patch e p db contact_id contact_in)"

subsection \<open>Reachable tables\<close>

datatype request =
    Startup
  | Create contact_create
  | Put int contact_create
  | Patch int contact_update
  | Delete int

fun handle :: "env \<Rightarrow> platform \<Rightarrow> request \<Rightarrow> table \<Rightarrow> table" where
  "handle e p Startup db = on_startup db"
| "handle e p (Create c) db = store (create_contact e p db c)"
| "handle e p (Put i c) db = store (update_contact_put e p db i c)"
| "handle e p (Patch i u) db = store (update_contact_patch e p db i u)"
| "handle e p (Delete i) db = store (delete_contact db i)"

text \<open>
  The table file starts empty; each step is one request, with whatever the external
  service and the libraries do during it. The reading handlers leave the table alone.
\<close>

inductive reachable :: "table \<Rightarrow> bool" where
  empty: "reachable []"
| step: "reachable db \<Longrightarrow> reachable (handle e p req db)"

text \<open>What the engine keeps of every table: the keys are distinct and the ids fit 64 bits.\<close>

definition store_inv :: "table \<Rightarrow> bool" where
  "store_inv db \<longleftrightarrow>
     distinct (map id' db) \<and> distinct (map email db) \<and> list_all (\<lambda>c. int64 (id' c)) db"

subsection \<open>Notions used in the statements\<close>

text \<open>A service that gives the same answer to every request.\<close>

definition answering :: "get_outcome \<Rightarrow> string \<Rightarrow> get_outcome" where
  "answering r url = r"

text \<open>
  A platform for the examples: it stores texts and reals as they are, finds no random
  row id and takes every string for an address.
\<close>

definition plain_platform :: platform where
  "plain_platform = \<lparr>integer_affinity = id, random_rowid = None, validate_email = Some\<rparr>"

text \<open>
  The verification of an address did not succeed: the result is a fallback (the key is
  not configured, or the call failed) and not a score of the service.
\<close>

definition degraded :: "env \<Rightarrow> string \<Rightarrow> bool" where
  "degraded e a =
     (case fst (verify_email_hunter e a) of
        Inl x \<Rightarrow> False
      | Inr v \<Rightarrow> status v \<noteq> ''verified'')"

text \<open>The error a request ended with, if it did.\<close>

definition failure :: "'a outcome \<Rightarrow> http_error option" where
  "failure out = (case result out of Inl err \<Rightarrow> Some err | Inr _ \<Rightarrow> None)"

text \<open>
  The slice in the specification's words: the elements at the positions \<open>skip\<close> to
  \<open>skip + limit - 1\<close> of a sequence, counted from 0, as far as they exist.
\<close>

definition slice_positions :: "'a list \<Rightarrow> int \<Rightarrow> int \<Rightarrow> 'a list" where
  "slice_positions xs skip limit =
     map (\<lambda>i. xs ! nat i)
       (filter (\<lambda>i. 0 \<le> i \<and> i < int (length xs)) [skip .. skip + limit - 1])"

section \<open>Properties\<close>

subsection \<open>The verification client\<close>

lemma except_clauses_returns: "\<exists>v. except_clauses x = Inr v"
  by (cases x) simp_all

lemma verify_returns: "\<exists>v tr. verify_email_hunter e a = (Inr v, tr)"
proof (cases "HUNTER_API_KEY e = [] \<or> HUNTER_API_KEY e = ''MOCK_KEY_IF_NOT_SET''")
  case True
  then show ?thesis by (simp add: verify_email_hunter_def)
next
  case False
  show ?thesis
  proof (cases "try_body e (hunter_url (HUNTER_API_KEY e) a)")
    case (Inl x)
    obtain v where "except_clauses x = Inr v" using except_clauses_returns by blast
    with False Inl show ?thesis by (simp add: verify_email_hunter_def Let_def)
  next
    case (Inr v)
    with False show ?thesis by (simp add: verify_email_hunter_def Let_def)
  qed
qed

lemma verify_configured:
  assumes "HUNTER_API_KEY e \<noteq> []" "HUNTER_API_KEY e \<noteq> ''MOCK_KEY_IF_NOT_SET''"
  shows "verify_email_hunter e a =
           ((case try_body e (hunter_url (HUNTER_API_KEY e) a) of
               Inr v \<Rightarrow> Inr v | Inl x \<Rightarrow> except_clauses x),
            [Verify a, HttpGet (hunter_url (HUNTER_API_KEY e) a)])"
  using assms by (simp add: verify_email_hunter_def Let_def)

lemma try_body_raises: "client_get e url = Raises x \<Longrightarrow> try_body e url = Inl x"
  by (simp add: try_body_def)

lemma try_body_status:
  "client_get e url = Returns r \<Longrightarrow> \<not> (200 \<le> status_code r \<and> status_code r < 300)
   \<Longrightarrow> try_body e url = Inl HTTPStatusError"
  by (auto simp: try_body_def raise_for_status_def)

lemma try_body_success:
  "client_get e url = Returns r \<Longrightarrow> 200 \<le> status_code r \<Longrightarrow> status_code r < 300
   \<Longrightarrow> try_body e url =
      (case response_json r of
         Inl x \<Rightarrow> Inl x
       | Inr data \<Rightarrow>
           (case getitem data ''data'' of
              Inl x \<Rightarrow> Inl x
            | Inr d \<Rightarrow>
                (case dict_get d ''score'' (JInt 50) of
                   Inl x \<Rightarrow> Inl x
                 | Inr s \<Rightarrow> Inr \<lparr>score = s, status = ''verified''\<rparr>)))"
  by (simp add: try_body_def raise_for_status_def)

lemma verify_status_error:
  assumes "HUNTER_API_KEY e \<noteq> []" "HUNTER_API_KEY e \<noteq> ''MOCK_KEY_IF_NOT_SET''"
    and "client_get e (hunter_url (HUNTER_API_KEY e) a) = Returns r"
    and "\<not> (200 \<le> status_code r \<and> status_code r < 300)"
  shows "fst (verify_email_hunter e a) = Inr \<lparr>score = JInt 40, status = ''api_error''\<rparr>"
  using assms by (simp add: verify_configured try_body_status)

lemma verify_raises:
  assumes "HUNTER_API_KEY e \<noteq> []" "HUNTER_API_KEY e \<noteq> ''MOCK_KEY_IF_NOT_SET''"
    and "client_get e (hunter_url (HUNTER_API_KEY e) a) = Raises x"
  shows "fst (verify_email_hunter e a) = except_clauses x"
  using assms by (simp add: verify_configured try_body_raises)

lemma except_clauses_other:
  "x \<noteq> HTTPStatusError \<Longrightarrow> x \<noteq> RequestError
   \<Longrightarrow> except_clauses x = Inr \<lparr>score = JInt 48, status = ''unexpected_error''\<rparr>"
  by (cases x) simp_all

lemma verify_success_shape:
  assumes "HUNTER_API_KEY e \<noteq> []" "HUNTER_API_KEY e \<noteq> ''MOCK_KEY_IF_NOT_SET''"
    and "client_get e (hunter_url (HUNTER_API_KEY e) a) = Returns r"
    and "200 \<le> status_code r" "status_code r < 300"
    and "body r = Some (JObj items)" "map_of items ''data'' = Some (JObj d)"
  shows "fst (verify_email_hunter e a) =
           Inr \<lparr>score = (case map_of d ''score'' of None \<Rightarrow> JInt 50 | Some s \<Rightarrow> s),
                status = ''verified''\<rparr>"
  using assms by (simp add: verify_configured try_body_success response_json_def)

lemma extraction_fails:
  assumes "\<forall>items d. \<not> (body r = Some (JObj items) \<and> map_of items ''data'' = Some (JObj d))"
  shows "\<exists>x. (case response_json r of
         Inl x \<Rightarrow> Inl x
       | Inr data \<Rightarrow>
           (case getitem data ''data'' of
              Inl x \<Rightarrow> Inl x
            | Inr d \<Rightarrow>
                (case dict_get d ''score'' (JInt 50) of
                   Inl x \<Rightarrow> Inl x
                 | Inr s \<Rightarrow> Inr \<lparr>score = s, status = ''verified''\<rparr>))) = Inl x
       \<and> x \<in> {JSONDecodeError, KeyError, TypeError, AttributeError}"
proof (cases "body r")
  case None
  then show ?thesis by (simp add: response_json_def)
next
  case (Some data)
  show ?thesis
  proof (cases data)
    case (JObj items)
    show ?thesis
    proof (cases "map_of items ''data''")
      case None
      with Some JObj show ?thesis by (simp add: response_json_def)
    next
      case (Some d)
      with assms \<open>body r = Some data\<close> JObj have "\<forall>kv. d \<noteq> JObj kv" by auto
      then have "dict_get d ''score'' (JInt 50) = Inl AttributeError" by (cases d) simp_all
      with Some \<open>body r = Some data\<close> JObj show ?thesis by (simp add: response_json_def)
    qed
  qed (use Some in \<open>simp_all add: response_json_def\<close>)
qed

lemma verify_success_other_shape:
  assumes "HUNTER_API_KEY e \<noteq> []" "HUNTER_API_KEY e \<noteq> ''MOCK_KEY_IF_NOT_SET''"
    and "client_get e (hunter_url (HUNTER_API_KEY e) a) = Returns r"
    and "200 \<le> status_code r" "status_code r < 300"
    and "\<forall>items d. \<not> (body r = Some (JObj items) \<and> map_of items ''data'' = Some (JObj d))"
  shows "fst (verify_email_hunter e a) =
           Inr \<lparr>score = JInt 48, status = ''unexpected_error''\<rparr>"
proof -
  obtain x where "try_body e (hunter_url (HUNTER_API_KEY e) a) = Inl x"
    and "x \<in> {JSONDecodeError, KeyError, TypeError, AttributeError}"
    using extraction_fails [OF assms(6)] try_body_success [OF assms(3,4,5)] by auto
  then show ?thesis using assms(1,2) by (auto simp: verify_configured)
qed

lemma verify_score_when_not_verified:
  assumes "verify_email_hunter e a = (Inr v, tr)" and "status v \<noteq> ''verified''"
  shows "score v \<in> {JInt 50, JInt 40, JInt 45, JInt 48}"
proof (cases "HUNTER_API_KEY e = [] \<or> HUNTER_API_KEY e = ''MOCK_KEY_IF_NOT_SET''")
  case True
  with assms(1) show ?thesis by (auto simp: verify_email_hunter_def)
next
  case False
  show ?thesis
  proof (cases "try_body e (hunter_url (HUNTER_API_KEY e) a)")
    case (Inl x)
    with False assms(1) have "except_clauses x = Inr v"
      by (simp add: verify_email_hunter_def Let_def)
    then show ?thesis by (cases x) auto
  next
    case (Inr w)
    with False assms(1) have "w = v" by (simp add: verify_email_hunter_def Let_def)
    with Inr have "status v = ''verified''"
      by (auto simp: try_body_def split: get_outcome.splits sum.splits)
    with assms(2) show ?thesis by simp
  qed
qed

subsection \<open>The table keeps its keys\<close>

lemma int64_small [simp]: "int64 40" "int64 45" "int64 48" "int64 50" "int64 1" "int64 2"
  by (simp_all add: int64_def)

lemma bind_score_fallback:
  "s \<in> {JInt 50, JInt 40, JInt 45, JInt 48} \<Longrightarrow> bind_score p s = Inr s"
  by auto

lemma fold_max_ge_start: "(a::int) \<le> fold max xs a"
proof (induction xs arbitrary: a)
  case Nil
  show ?case by simp
next
  case (Cons x xs)
  have "a \<le> max x a" by simp
  also have "\<dots> \<le> fold max xs (max x a)" by (rule Cons.IH)
  finally show ?case by simp
qed

lemma fold_max_ge_elem: "x \<in> set xs \<Longrightarrow> (x::int) \<le> fold max xs a"
proof (induction xs arbitrary: a)
  case Nil
  then show ?case by simp
next
  case (Cons y ys)
  show ?case
  proof (cases "x = y")
    case True
    have "x \<le> max y a" using True by simp
    also have "\<dots> \<le> fold max ys (max y a)" by (rule fold_max_ge_start)
    finally show ?thesis by simp
  next
    case False
    with Cons.prems have "x \<in> set ys" by simp
    then show ?thesis using Cons.IH by simp
  qed
qed

lemma fold_max_in: "fold max xs (a::int) \<in> insert a (set xs)"
proof (induction xs arbitrary: a)
  case Nil
  show ?case by simp
next
  case (Cons x xs)
  have "fold max xs (max x a) \<in> insert (max x a) (set xs)" by (rule Cons.IH)
  moreover have "max x a = x \<or> max x a = a" by (simp add: max_def)
  ultimately show ?case by auto
qed

lemma next_id_fresh:
  assumes "next_id p db = Some i" and "list_all (\<lambda>c. int64 (id' c)) db"
  shows "i \<notin> id' ` set db \<and> int64 i"
proof (cases db)
  case Nil
  with assms(1) show ?thesis by (simp add: next_id_def)
next
  case (Cons d ds)
  let ?m = "fold max (map id' ds) (id' d)"
  have above: "id' c \<le> ?m" if "c \<in> set db" for c
    using that Cons fold_max_ge_start [of "id' d" "map id' ds"]
      fold_max_ge_elem [of "id' c" "map id' ds" "id' d"]
    by auto
  have "?m \<in> id' ` set db" using fold_max_in [of "map id' ds" "id' d"] Cons by auto
  with assms(2) have low: "- (2 ^ 63) \<le> ?m" by (auto simp: list_all_iff int64_def)
  show ?thesis
  proof (cases "?m < 2 ^ 63 - 1")
    case True
    with assms(1) Cons have i: "i = ?m + 1" by (simp add: next_id_def Let_def)
    have "i \<notin> id' ` set db" using above i by fastforce
    moreover have "int64 i" using True low i by (simp add: int64_def)
    ultimately show ?thesis by simp
  next
    case False
    with assms(1) Cons obtain r where r: "random_rowid p = Some r"
      and ok: "0 < r \<and> r < 2 ^ 63 \<and> find (\<lambda>x. id' x = r) db = None" and i: "i = r"
      by (auto simp: next_id_def Let_def split: option.splits if_splits)
    from ok have "r \<notin> id' ` set db" by (auto simp: find_None_iff)
    moreover from ok have "int64 r" by (simp add: int64_def)
    ultimately show ?thesis using i by simp
  qed
qed


lemma select_by_id_SomeD:
  "select_by_id db i = Inr (Some c) \<Longrightarrow> c \<in> set db \<and> id' c = i \<and> int64 i"
  by (auto simp: select_by_id_def find_Some_iff split: if_splits)

lemma find_unique:
  "distinct (map f xs) \<Longrightarrow> x \<in> set xs \<Longrightarrow> find (\<lambda>y. f y = f x) xs = Some x"
proof (induction xs)
  case Nil
  then show ?case by simp
next
  case (Cons y ys)
  then show ?case by (cases "f y = f x") (auto simp: image_iff)
qed

lemma select_by_id_member:
  assumes "store_inv db" and "c \<in> set db"
  shows "select_by_id db (id' c) = Inr (Some c)"
proof -
  from assms have "int64 (id' c)" and "distinct (map id' db)"
    by (auto simp: store_inv_def list_all_iff)
  with assms(2) show ?thesis by (simp add: select_by_id_def find_unique)
qed

lemma select_by_email_None:
  "select_by_email db (Some a) = None \<longleftrightarrow> a \<notin> email ` set db"
  by (auto simp: select_by_email_def find_None_iff)

lemma insert_row_cases:
  "(\<exists>x. insert_row p db c hs = Inl x) \<or>
   (\<exists>stored i. bind_score p hs = Inr stored \<and> next_id p db = Some i
      \<and> email c \<notin> email ` set db
      \<and> insert_row p db c hs =
           Inr (\<lparr>first_name = first_name c, last_name = last_name c, email = email c,
                 phone = phone c, id' = i, hunter_score = stored\<rparr>,
                db @ [\<lparr>first_name = first_name c, last_name = last_name c, email = email c,
                 phone = phone c, id' = i, hunter_score = stored\<rparr>]))"
  by (auto simp: insert_row_def Let_def find_None_iff split: sum.splits option.splits)

lemma store_inv_append:
  assumes "store_inv db" "id' c \<notin> id' ` set db" "email c \<notin> email ` set db" "int64 (id' c)"
  shows "store_inv (db @ [c])"
  using assms by (simp add: store_inv_def)

lemma store_inv_filter: "store_inv db \<Longrightarrow> store_inv (filter P db)"
  by (simp add: store_inv_def distinct_map_filter list_all_iff)

lemma map_replace_id:
  "id' c' = id' c \<Longrightarrow> map id' (map (\<lambda>r. if id' r = id' c then c' else r) db) = map id' db"
  by (induction db) auto

lemma replace_emails_distinct:
  assumes "distinct (map id' db)" "distinct (map email db)"
    and "\<forall>r\<in>set db. id' r \<noteq> id' c \<longrightarrow> email r \<noteq> email c"
  shows "distinct (map email (map (\<lambda>r. if id' r = id' c then c else r) db))"
  using assms
proof (induction db)
  case Nil
  then show ?case by simp
next
  case (Cons d ds)
  let ?f = "\<lambda>r. if id' r = id' c then c else r"
  have ih: "distinct (map email (map ?f ds))" using Cons by simp
  show ?case
  proof (cases "id' d = id' c")
    case True
    with Cons.prems(1) have other: "\<forall>r\<in>set ds. id' r \<noteq> id' c" by (auto simp: image_iff)
    then have same: "map ?f ds = ds" by (simp add: map_idI)
    from other Cons.prems(3) have "email c \<notin> set (map email ds)" by auto
    moreover from Cons.prems(2) have "distinct (map email ds)" by simp
    ultimately show ?thesis using True same by simp
  next
    case False
    with Cons.prems(3) have dc: "email d \<noteq> email c" by simp
    from Cons.prems(2) have "email d \<notin> set (map email ds)" by simp
    with dc have "email d \<notin> set (map email (map ?f ds))"
      by (auto split: if_splits)
    with ih False show ?thesis by simp
  qed
qed

lemma update_row_cases:
  "(\<exists>x. update_row p db c hs = Inl x) \<or>
   (\<exists>stored. (case hs of None \<Rightarrow> Inr (hunter_score c) | Some v \<Rightarrow> bind_score p v) = Inr stored
      \<and> (\<forall>r\<in>set db. id' r \<noteq> id' c \<longrightarrow> email r \<noteq> email c)
      \<and> update_row p db c hs =
           Inr (c\<lparr>hunter_score := stored\<rparr>,
                map (\<lambda>r. if id' r = id' c then c\<lparr>hunter_score := stored\<rparr> else r) db))"
  by (auto simp: update_row_def Let_def find_None_iff split: sum.splits)

lemma update_row_inv:
  assumes "store_inv db" "update_row p db c hs = Inr (c', db')"
  shows "store_inv db'"
proof -
  from update_row_cases [of p db c hs] assms(2) obtain stored
    where no: "\<forall>r\<in>set db. id' r \<noteq> id' c \<longrightarrow> email r \<noteq> email c"
      and c': "c' = c\<lparr>hunter_score := stored\<rparr>"
      and db': "db' = map (\<lambda>r. if id' r = id' c then c' else r) db"
    by auto
  have same: "id' c' = id' c" "email c' = email c" by (simp_all add: c')
  from assms(1) have d: "distinct (map id' db)" "distinct (map email db)"
    and r: "list_all (\<lambda>c. int64 (id' c)) db"
    by (simp_all add: store_inv_def)
  have db'': "db' = map (\<lambda>r. if id' r = id' c' then c' else r) db"
    by (simp add: db' same)
  have ids: "map id' db' = map id' db" unfolding db' using same(1) by (rule map_replace_id)
  have "distinct (map email db')" unfolding db''
    by (rule replace_emails_distinct [OF d]) (use no same in auto)
  moreover have "list_all (\<lambda>c. int64 (id' c)) db'"
  proof -
    have "set (map id' db') = set (map id' db)" by (simp only: ids)
    then have img: "id' ` set db' = id' ` set db" by (simp only: set_map)
    have "int64 (id' q)" if "q \<in> set db'" for q
    proof -
      from that img have "id' q \<in> id' ` set db" by blast
      then obtain q' where "q' \<in> set db" "id' q' = id' q" by auto
      with r show ?thesis by (auto simp: list_all_iff)
    qed
    then show ?thesis by (simp add: list_all_iff)
  qed
  ultimately show ?thesis using d(1) ids by (simp add: store_inv_def)
qed

lemma commit_object_inv:
  "store_inv db \<Longrightarrow> store_inv (store (commit_object p db c hs tr))"
  by (auto simp: commit_object_def failed_def update_row_inv split: sum.splits)

lemma apply_and_commit_inv:
  "store_inv db \<Longrightarrow> store_inv (store (apply_and_commit p db c u hs tr))"
  by (auto simp: apply_and_commit_def failed_def commit_object_inv split: sum.splits)

lemma create_contact_cases:
  "(\<exists>err. result (create_contact e p db c) = Inl err \<and> store (create_contact e p db c) = db)
   \<or> (\<exists>v tr stored i. verify_email_hunter e (email c) = (Inr v, tr)
        \<and> bind_score p (score v) = Inr stored \<and> next_id p db = Some i
        \<and> email c \<notin> email ` set db
        \<and> create_contact e p db c =
             \<lparr>result = Inr \<lparr>first_name = first_name c, last_name = last_name c,
                             email = email c, phone = phone c, id' = i,
                             hunter_score = stored\<rparr>,
              store = db @ [\<lparr>first_name = first_name c, last_name = last_name c,
                             email = email c, phone = phone c, id' = i,
                             hunter_score = stored\<rparr>],
              trace = tr @ [SelectByEmail (Some (email c))]\<rparr>)"
proof -
  obtain v tr where v: "verify_email_hunter e (email c) = (Inr v, tr)"
    using verify_returns by blast
  show ?thesis
  proof (cases "select_by_email db (Some (email c))")
    case (Some r)
    with v show ?thesis by (simp add: create_contact_def failed_def Let_def)
  next
    case None
    from insert_row_cases [of p db c "score v"] show ?thesis
    proof
      assume "\<exists>x. insert_row p db c (score v) = Inl x"
      with v None show ?thesis by (auto simp: create_contact_def failed_def Let_def)
    next
      assume "\<exists>stored i. bind_score p (score v) = Inr stored \<and> next_id p db = Some i
        \<and> email c \<notin> email ` set db
        \<and> insert_row p db c (score v) =
           Inr (\<lparr>first_name = first_name c, last_name = last_name c, email = email c,
                 phone = phone c, id' = i, hunter_score = stored\<rparr>,
                db @ [\<lparr>first_name = first_name c, last_name = last_name c, email = email c,
                 phone = phone c, id' = i, hunter_score = stored\<rparr>])"
      with v None show ?thesis by (auto simp: create_contact_def Let_def)
    qed
  qed
qed

lemma create_contact_inv:
  assumes "store_inv db"
  shows "store_inv (store (create_contact e p db c))"
  using create_contact_cases [of e p db c]
proof
  assume "\<exists>err. result (create_contact e p db c) = Inl err \<and> store (create_contact e p db c) = db"
  with assms show ?thesis by auto
next
  assume "\<exists>v tr stored i. verify_email_hunter e (email c) = (Inr v, tr)
        \<and> bind_score p (score v) = Inr stored \<and> next_id p db = Some i
        \<and> email c \<notin> email ` set db
        \<and> create_contact e p db c =
             \<lparr>result = Inr \<lparr>first_name = first_name c, last_name = last_name c,
                             email = email c, phone = phone c, id' = i,
                             hunter_score = stored\<rparr>,
              store = db @ [\<lparr>first_name = first_name c, last_name = last_name c,
                             email = email c, phone = phone c, id' = i,
                             hunter_score = stored\<rparr>],
              trace = tr @ [SelectByEmail (Some (email c))]\<rparr>"
  then obtain stored i where i: "next_id p db = Some i" and fresh: "email c \<notin> email ` set db"
    and st: "store (create_contact e p db c) =
               db @ [\<lparr>first_name = first_name c, last_name = last_name c,
                      email = email c, phone = phone c, id' = i, hunter_score = stored\<rparr>]"
    by auto
  from assms have "list_all (\<lambda>c. int64 (id' c)) db" by (simp add: store_inv_def)
  from next_id_fresh [OF i this] show ?thesis
    unfolding st using assms fresh by (intro store_inv_append) simp_all
qed

lemma update_contact_put_inv:
  "store_inv db \<Longrightarrow> store_inv (store (update_contact_put e p db i c))"
  by (auto simp: update_contact_put_def failed_def Let_def commit_object_inv
      split: option.splits sum.splits prod.splits)

lemma update_contact_patch_inv:
  "store_inv db \<Longrightarrow> store_inv (store (update_contact_patch e p db i u))"
  by (auto simp: update_contact_patch_def failed_def Let_def apply_and_commit_inv
      split: option.splits sum.splits prod.splits field.splits)

lemma delete_contact_inv: "store_inv db \<Longrightarrow> store_inv (store (delete_contact db i))"
  by (auto simp: delete_contact_def delete_rows_def failed_def store_inv_filter)

lemma seed_contacts_inv: "store_inv seed_contacts"
  by (simp add: store_inv_def seed_contacts_def)

lemma on_startup_inv: "store_inv db \<Longrightarrow> store_inv (on_startup db)"
  by (cases db) (simp_all add: on_startup_def seed_contacts_inv)

lemma handle_inv: "store_inv db \<Longrightarrow> store_inv (handle e p req db)"
  by (cases req)
    (simp_all add: on_startup_inv create_contact_inv update_contact_put_inv
      update_contact_patch_inv delete_contact_inv)

lemma reachable_inv: "reachable db \<Longrightarrow> store_inv db"
  by (induction rule: reachable.induct) (simp_all add: store_inv_def [of "[]"] handle_inv)

lemma seed_reachable: "reachable seed_contacts"
  using reachable.step [OF reachable.empty, of e p Startup] by (simp add: on_startup_def)

subsection \<open>What each handler does\<close>

lemma failure_failed [simp]: "failure (failed err db tr) = Some err"
  by (simp add: failure_def failed_def)

lemma count_unique:
  "distinct (map f xs) \<Longrightarrow>
     length (filter (\<lambda>r. f r = a) xs) = (if a \<in> f ` set xs then 1 else 0)"
proof (induction xs)
  case Nil
  show ?case by simp
next
  case (Cons x xs)
  then show ?case by (cases "f x = a") (auto simp: image_iff)
qed

lemma create_contact_taken:
  assumes "email c \<in> email ` set db"
  shows "result (create_contact e p db c) = Inl Conflict \<and> store (create_contact e p db c) = db"
proof -
  obtain v tr where v: "verify_email_hunter e (email c) = (Inr v, tr)"
    using verify_returns by blast
  from assms have "select_by_email db (Some (email c)) \<noteq> None"
    by (simp add: select_by_email_None)
  with v show ?thesis by (auto simp: create_contact_def failed_def Let_def)
qed

lemma create_contact_result:
  assumes "result (create_contact e p db c) = Inr new"
  shows "(\<exists>v tr. verify_email_hunter e (email c) = (Inr v, tr)
            \<and> bind_score p (score v) = Inr (hunter_score new))
         \<and> store (create_contact e p db c) = db @ [new]
         \<and> email new = email c"
  using create_contact_cases [of e p db c] assms by auto

lemma insert_row_fails:
  "isl (insert_row p db c hs) \<longleftrightarrow>
     isl (bind_score p hs) \<or> email c \<in> email ` set db \<or> next_id p db = None"
  by (auto simp: insert_row_def Let_def find_None_iff image_iff
      split: sum.splits option.splits) metis+

lemma failure_create_contact:
  assumes "verify_email_hunter e (email c) = (Inr v, tr)"
  shows "failure (create_contact e p db c) =
           (if email c \<in> email ` set db then Some Conflict
            else if isl (bind_score p (score v)) \<or> next_id p db = None
                 then Some InternalServerError else None)"
proof (cases "email c \<in> email ` set db")
  case True
  with create_contact_taken [OF True, of e p] show ?thesis by (simp add: failure_def)
next
  case False
  then have none: "select_by_email db (Some (email c)) = None"
    by (simp add: select_by_email_None)
  show ?thesis
  proof (cases "insert_row p db c (score v)")
    case (Inl x)
    then have "isl (insert_row p db c (score v))" by simp
    with False have "isl (bind_score p (score v)) \<or> next_id p db = None"
      by (simp add: insert_row_fails)
    with False Inl assms none show ?thesis by (simp add: create_contact_def Let_def)
  next
    case (Inr r)
    then have "\<not> isl (insert_row p db c (score v))" by simp
    then have "\<not> (isl (bind_score p (score v)) \<or> next_id p db = None)"
      by (simp add: insert_row_fails)
    with False Inr assms none show ?thesis
      by (cases r) (simp add: create_contact_def Let_def failure_def)
  qed
qed

lemma update_row_fails:
  "isl (update_row p db c hs) \<longleftrightarrow>
     (\<exists>v. hs = Some v \<and> isl (bind_score p v))
     \<or> find (\<lambda>r. id' r \<noteq> id' c \<and> email r = email c) db \<noteq> None"
  by (auto simp: update_row_def Let_def split: sum.splits option.splits)

lemma failure_commit_object:
  "failure (commit_object p db c hs tr) =
     (if (\<exists>v. hs = Some v \<and> isl (bind_score p v))
         \<or> find (\<lambda>r. id' r \<noteq> id' c \<and> email r = email c) db \<noteq> None
      then Some InternalServerError else None)"
proof (cases "update_row p db c hs")
  case (Inl x)
  then have "isl (update_row p db c hs)" by simp
  then have "(\<exists>v. hs = Some v \<and> isl (bind_score p v))
      \<or> find (\<lambda>r. id' r \<noteq> id' c \<and> email r = email c) db \<noteq> None"
    using update_row_fails [of p db c hs] by blast
  with Inl show ?thesis by (simp add: commit_object_def)
next
  case (Inr r)
  then have "\<not> isl (update_row p db c hs)" by simp
  then have "\<not> ((\<exists>v. hs = Some v \<and> isl (bind_score p v))
      \<or> find (\<lambda>r. id' r \<noteq> id' c \<and> email r = email c) db \<noteq> None)"
    using update_row_fails [of p db c hs] by blast
  with Inr show ?thesis by (cases r) (simp add: commit_object_def failure_def)
qed

lemma degraded_score:
  assumes "degraded e a"
  obtains v tr where "verify_email_hunter e a = (Inr v, tr)"
    and "bind_score p (score v) = Inr (score v)"
proof -
  obtain v tr where v: "verify_email_hunter e a = (Inr v, tr)"
    using verify_returns by blast
  with assms have "status v \<noteq> ''verified''" by (simp add: degraded_def)
  from verify_score_when_not_verified [OF v this] have "bind_score p (score v) = Inr (score v)"
    by (rule bind_score_fallback)
  with v that show ?thesis by blast
qed

lemma verify_without_key:
  "verify_email_hunter (e\<lparr>HUNTER_API_KEY := []\<rparr>) a =
     (Inr \<lparr>score = JInt 50, status = ''mocked_key''\<rparr>, [Verify a])"
  by (simp add: verify_email_hunter_def)

lemma failure_create_degraded:
  assumes "degraded e (email c)"
  shows "failure (create_contact e p db c) =
           (if email c \<in> email ` set db then Some Conflict
            else if next_id p db = None then Some InternalServerError else None)"
proof -
  from assms obtain v tr where v: "verify_email_hunter e (email c) = (Inr v, tr)"
    and b: "bind_score p (score v) = Inr (score v)"
    by (rule degraded_score)
  show ?thesis by (simp add: failure_create_contact [OF v] b)
qed

lemma failure_put_degraded:
  assumes "degraded e (email c)"
  shows "failure (update_contact_put e p db i c) =
           failure (update_contact_put (e\<lparr>HUNTER_API_KEY := []\<rparr>) p db i c)"
proof -
  from assms obtain v tr where v: "verify_email_hunter e (email c) = (Inr v, tr)"
    and b: "bind_score p (score v) = Inr (score v)"
    by (rule degraded_score)
  show ?thesis
    by (simp add: update_contact_put_def Let_def v b verify_without_key failure_commit_object
        split: option.splits sum.splits)
qed

lemma failure_apply_and_commit:
  assumes "\<not> isl (bind_score p s)" "\<not> isl (bind_score p s')"
  shows "failure (apply_and_commit p db old u (Some s) tr) =
           failure (apply_and_commit p db old u (Some s') tr')"
  using assms
  by (simp add: apply_and_commit_def failure_commit_object split: sum.splits)

lemma failure_patch_degraded:
  assumes "\<forall>w. contact_update.email u = Given w \<longrightarrow> degraded e (py_str w)"
  shows "failure (update_contact_patch e p db i u) =
           failure (update_contact_patch (e\<lparr>HUNTER_API_KEY := []\<rparr>) p db i u)"
proof (cases "contact_update.email u")
  case Unset
  then show ?thesis by (simp add: update_contact_patch_def split: sum.splits option.splits)
next
  case (Given w)
  with assms have "degraded e (py_str w)" by simp
  then obtain v tr where v: "verify_email_hunter e (py_str w) = (Inr v, tr)"
    and b: "bind_score p (score v) = Inr (score v)"
    by (rule degraded_score)
  have "failure (apply_and_commit p db old u (Some (score v)) t) =
        failure (apply_and_commit p db old u (Some (JInt 50)) t')" for old t t'
    by (rule failure_apply_and_commit) (simp_all add: b)
  with Given show ?thesis
    by (simp add: update_contact_patch_def Let_def v verify_without_key
        split: option.splits sum.splits)
qed

lemma commit_object_result:
  assumes "result (commit_object p db c hs tr) = Inr new"
  shows "id' new = id' c \<and> email new = email c
         \<and> (case hs of None \<Rightarrow> hunter_score new = hunter_score c
                      | Some v \<Rightarrow> bind_score p v = Inr (hunter_score new))
         \<and> store (commit_object p db c hs tr) = map (\<lambda>r. if id' r = id' new then new else r) db
         \<and> trace (commit_object p db c hs tr) = tr"
  using update_row_cases [of p db c hs] assms
  by (auto simp: commit_object_def failed_def split: option.splits)

lemma no_other_row:
  assumes "store_inv db" "old \<in> set db" "id' c = id' old"
    and "email c = email old \<or> email c \<notin> email ` set db"
  shows "find (\<lambda>r. id' r \<noteq> id' c \<and> email r = email c) db = None"
proof -
  have "\<not> (id' r \<noteq> id' c \<and> email r = email c)" if "r \<in> set db" for r
  proof
    assume a: "id' r \<noteq> id' c \<and> email r = email c"
    from assms(4) show False
    proof
      assume "email c = email old"
      with a have "email r = email old" by simp
      moreover from assms(1) have "inj_on email (set db)"
        by (simp add: store_inv_def distinct_map)
      ultimately have "r = old" using that assms(2) by (auto dest: inj_onD)
      with a assms(3) show False by simp
    next
      assume "email c \<notin> email ` set db"
      with a that show False by (metis imageI)
    qed
  qed
  then show ?thesis by (simp add: find_None_iff)
qed

lemma update_contact_put_conflict:
  assumes "select_by_id db i = Inr (Some old)" "email c \<noteq> email old"
    and "email c \<in> email ` set db"
  shows "update_contact_put e p db i c = failed Conflict db [SelectByEmail (Some (email c))]"
proof -
  from assms(3) have "select_by_email db (Some (email c)) \<noteq> None"
    by (simp add: select_by_email_None)
  with assms(1,2) show ?thesis by (auto simp: update_contact_put_def Let_def)
qed

lemma update_contact_patch_conflict:
  assumes "select_by_id db i = Inr (Some old)" "contact_update.email u = Given (Some a)"
    and "a \<noteq> email old" "a \<in> email ` set db"
  shows "update_contact_patch e p db i u = failed Conflict db [SelectByEmail (Some a)]"
proof -
  from assms(4) have "select_by_email db (Some a) \<noteq> None"
    by (simp add: select_by_email_None)
  with assms(1,2,3) show ?thesis by (auto simp: update_contact_patch_def Let_def)
qed

lemma failure_put_no_server_error:
  assumes "store_inv db" "int64 i" "degraded e (email c)"
  shows "failure (update_contact_put e p db i c) \<noteq> Some InternalServerError"
proof (cases "find (\<lambda>c. id' c = i) db")
  case None
  with assms(2) show ?thesis by (simp add: update_contact_put_def select_by_id_def)
next
  case (Some old)
  with assms(2) have sel: "select_by_id db i = Inr (Some old)" by (simp add: select_by_id_def)
  then have old: "old \<in> set db" "id' old = i" using select_by_id_SomeD by auto
  from assms(3) obtain v tr where v: "verify_email_hunter e (email c) = (Inr v, tr)"
    and b: "bind_score p (score v) = Inr (score v)"
    by (rule degraded_score)
  let ?new = "old\<lparr>first_name := first_name c, last_name := last_name c,
                  email := email c, phone := phone c\<rparr>"
  show ?thesis
  proof (cases "email old = email c")
    case True
    have "find (\<lambda>r. id' r \<noteq> id' ?new \<and> email r = email ?new) db = None"
      by (rule no_other_row [OF assms(1) old(1)]) (simp_all add: True)
    with sel True show ?thesis
      by (simp add: update_contact_put_def Let_def failure_commit_object)
  next
    case False
    show ?thesis
    proof (cases "select_by_email db (Some (email c))")
      case (Some other)
      with sel False show ?thesis by (simp add: update_contact_put_def Let_def)
    next
      case None
      then have fresh: "email c \<notin> email ` set db" by (simp add: select_by_email_None)
      have "find (\<lambda>r. id' r \<noteq> id' ?new \<and> email r = email ?new) db = None"
        by (rule no_other_row [OF assms(1) old(1)]) (simp_all add: fresh)
      with sel False None v b show ?thesis
        by (simp add: update_contact_put_def Let_def failure_commit_object)
    qed
  qed
qed

lemma update_contact_put_result:
  assumes "result (update_contact_put e p db i c) = Inr new"
  shows "\<exists>old. select_by_id db i = Inr (Some old)
           \<and> (hunter_score new = hunter_score old
              \<or> (\<exists>v tr. verify_email_hunter e (email c) = (Inr v, tr)
                    \<and> bind_score p (score v) = Inr (hunter_score new)))
           \<and> store (update_contact_put e p db i c) =
               map (\<lambda>r. if id' r = id' new then new else r) db"
proof (cases "select_by_id db i")
  case (Inl x)
  with assms show ?thesis by (simp add: update_contact_put_def failed_def)
next
  case (Inr found)
  show ?thesis
  proof (cases found)
    case None
    with Inr assms show ?thesis by (simp add: update_contact_put_def failed_def)
  next
    case (Some old)
    obtain v tr where v: "verify_email_hunter e (email c) = (Inr v, tr)"
      using verify_returns by blast
    show ?thesis
    proof (cases "email old = email c")
      case True
      with Inr Some assms show ?thesis
        by (auto simp: update_contact_put_def Let_def dest!: commit_object_result)
    next
      case False
      with Inr Some assms v show ?thesis
        by (auto simp: update_contact_put_def Let_def failed_def split: option.splits
            dest!: commit_object_result)
    qed
  qed
qed

lemma apply_and_commit_result:
  assumes "result (apply_and_commit p db old u hs tr) = Inr new"
  shows "id' new = id' old
         \<and> (case hs of None \<Rightarrow> hunter_score new = hunter_score old
                      | Some v \<Rightarrow> bind_score p v = Inr (hunter_score new))
         \<and> store (apply_and_commit p db old u hs tr) =
             map (\<lambda>r. if id' r = id' new then new else r) db"
proof (cases "apply_update_data old u")
  case (Inl x)
  with assms show ?thesis by (simp add: apply_and_commit_def failed_def)
next
  case (Inr c)
  then have same: "id' c = id' old" "hunter_score c = hunter_score old"
    by (auto simp: apply_update_data_def split: sum.splits)
  from Inr assms have "result (commit_object p db c hs tr) = Inr new"
    by (simp add: apply_and_commit_def)
  from commit_object_result [OF this] Inr same show ?thesis
    by (auto simp: apply_and_commit_def split: option.splits)
qed

lemma update_contact_patch_result:
  assumes "result (update_contact_patch e p db i u) = Inr new"
  shows "\<exists>old. select_by_id db i = Inr (Some old)
           \<and> (hunter_score new = hunter_score old
              \<or> (\<exists>w v tr. contact_update.email u = Given w
                    \<and> verify_email_hunter e (py_str w) = (Inr v, tr)
                    \<and> bind_score p (score v) = Inr (hunter_score new)))
           \<and> store (update_contact_patch e p db i u) =
               map (\<lambda>r. if id' r = id' new then new else r) db"
proof (cases "select_by_id db i")
  case (Inl x)
  with assms show ?thesis by (simp add: update_contact_patch_def failed_def)
next
  case (Inr found)
  show ?thesis
  proof (cases found)
    case None
    with Inr assms show ?thesis by (simp add: update_contact_patch_def failed_def)
  next
    case (Some old)
    show ?thesis
    proof (cases "contact_update.email u")
      case Unset
      with Inr Some assms show ?thesis
        by (auto simp: update_contact_patch_def dest!: apply_and_commit_result)
    next
      case (Given w)
      obtain v tr where v: "verify_email_hunter e (py_str w) = (Inr v, tr)"
        using verify_returns by blast
      show ?thesis
      proof (cases "w = Some (email old)")
        case True
        with Inr Some Given assms show ?thesis
          by (auto simp: update_contact_patch_def dest!: apply_and_commit_result)
      next
        case False
        with Inr Some Given assms v show ?thesis
          by (auto simp: update_contact_patch_def Let_def failed_def split: option.splits
              dest!: apply_and_commit_result)
      qed
    qed
  qed
qed

subsection \<open>Request bodies\<close>

lemma parse_contact_create_ignores:
  assumes "\<forall>k. k \<noteq> ''hunter_score'' \<longrightarrow> map_of items k = map_of items' k"
  shows "parse_contact_create p (JObj items) = parse_contact_create p (JObj items')"
proof -
  from assms have "map_of items ''first_name'' = map_of items' ''first_name''"
    "map_of items ''last_name'' = map_of items' ''last_name''"
    "map_of items ''email'' = map_of items' ''email''"
    "map_of items ''phone'' = map_of items' ''phone''"
    by simp_all
  then show ?thesis by (simp add: parse_contact_create_def)
qed

lemma parse_contact_update_ignores:
  assumes "\<forall>k. k \<noteq> ''hunter_score'' \<longrightarrow> map_of items k = map_of items' k"
  shows "parse_contact_update p (JObj items) = parse_contact_update p (JObj items')"
proof -
  from assms have "map_of items ''first_name'' = map_of items' ''first_name''"
    "map_of items ''last_name'' = map_of items' ''last_name''"
    "map_of items ''email'' = map_of items' ''email''"
    "map_of items ''phone'' = map_of items' ''phone''"
    by simp_all
  then show ?thesis by (simp add: parse_contact_update_def)
qed

subsection \<open>Listing\<close>

lemma map_int_upt: "map int [a..<b] = [int a .. int b - 1]"
proof (induction b)
  case 0
  show ?case by simp
next
  case (Suc b)
  show ?case
  proof (cases "a \<le> b")
    case True
    then have "[int a .. int (Suc b) - 1] = [int a .. int b - 1] @ [int b]"
      using upto_rec2 [of "int a" "int b"] by simp
    with Suc True show ?thesis by simp
  next
    case False
    then show ?thesis by simp
  qed
qed

lemma filter_upt_below: "filter (\<lambda>j. j < n) [a..<b] = [a..<min b n]"
proof (induction b)
  case 0
  show ?case by simp
next
  case (Suc b)
  show ?case
  proof (cases "a \<le> b")
    case True
    with Suc show ?thesis by (cases "b < n") (simp_all add: min_def)
  next
    case False
    then show ?thesis by simp
  qed
qed

lemma map_nth_upt: "b \<le> length xs \<Longrightarrow> map ((!) xs) [a..<b] = drop a (take b xs)"
  by (rule nth_equalityI) auto

lemma slice_positions_take_drop:
  assumes "0 \<le> skip" "0 \<le> limit"
  shows "slice_positions xs skip limit = take (nat limit) (drop (nat skip) xs)"
proof -
  define a m where "a = nat skip" and "m = nat limit"
  with assms have sk: "skip = int a" and li: "limit = int m" by simp_all
  have "[skip .. skip + limit - 1] = map int [a..<a + m]"
    by (simp add: map_int_upt sk li)
  then have "slice_positions xs skip limit =
      map (\<lambda>i. xs ! nat i) (filter (\<lambda>i. 0 \<le> i \<and> i < int (length xs)) (map int [a..<a + m]))"
    by (simp add: slice_positions_def)
  also have "\<dots> = map ((!) xs) (filter (\<lambda>j. j < length xs) [a..<a + m])"
    by (simp add: filter_map comp_def)
  also have "\<dots> = map ((!) xs) [a..<min (a + m) (length xs)]"
    by (simp only: filter_upt_below)
  also have "\<dots> = drop a (take (min (a + m) (length xs)) xs)"
    by (rule map_nth_upt) simp
  also have "\<dots> = take m (drop a xs)"
    by (simp add: drop_take min_def)
  finally show ?thesis by (simp add: a_def m_def)
qed

lemma read_contacts_cases:
  "(read_contacts db skip limit = Inl InternalServerError \<and> \<not> (int64 skip \<and> int64 limit))
   \<or> (read_contacts db skip limit = Inr (sql_limit limit (sql_offset skip (sort_key id' db)))
       \<and> int64 skip \<and> int64 limit)"
  by (simp add: read_contacts_def select_page_def)

lemma page_sorted: "sorted (map id' (sql_limit limit (sql_offset skip (sort_key id' db))))"
proof -
  have s: "sorted (map id' (sort_key id' db))" by (rule sorted_sort_key)
  then have "sorted (map id' (sql_offset skip (sort_key id' db)))"
    by (simp add: sql_offset_def drop_map [symmetric] sorted_wrt_drop)
  then show ?thesis
    by (simp add: sql_limit_def take_map [symmetric] sorted_wrt_take)
qed

lemma set_sql_limit: "set (sql_limit n ys) \<subseteq> set ys"
  by (auto simp: sql_limit_def dest: in_set_takeD)

lemma set_sql_offset: "set (sql_offset n ys) \<subseteq> set ys"
  by (auto simp: sql_offset_def dest: in_set_dropD)

lemma page_rows: "set (sql_limit limit (sql_offset skip (sort_key id' db))) \<subseteq> set db"
proof -
  have "set (sql_limit limit (sql_offset skip (sort_key id' db)))
      \<subseteq> set (sql_offset skip (sort_key id' db))" by (rule set_sql_limit)
  also have "\<dots> \<subseteq> set (sort_key id' db)" by (rule set_sql_offset)
  also have "\<dots> = set db" by simp
  finally show ?thesis .
qed

section \<open>The properties claimed by the specification\<close>

text \<open>
  C1. In every table that can be reached from the empty one, no two rows hold the same
  email, and the table after any further request is reachable again and has the same
  property. Creating a contact whose email a row already holds fails with Conflict (409)
  and changes nothing, so exactly one row holds that email afterwards; in particular,
  after a create that succeeded, a second create with the same email fails this way.
\<close>

theorem email_uniqueness_invariant:
  assumes "reachable db"
  shows "distinct (map email db)
         \<and> length (filter (\<lambda>r. email r = a) db) \<le> 1
         \<and> reachable (handle e p req db)
         \<and> distinct (map email (handle e p req db))
         \<and> (email c \<in> email ` set db \<longrightarrow>
              result (create_contact e p db c) = Inl Conflict \<and> http_status Conflict = 409
              \<and> store (create_contact e p db c) = db
              \<and> length (filter (\<lambda>r. email r = email c) (store (create_contact e p db c))) = 1)
         \<and> (result (create_contact e p db c) = Inr new \<and> email c' = email c \<longrightarrow>
              result (create_contact e' p' (store (create_contact e p db c)) c') = Inl Conflict
              \<and> length (filter (\<lambda>r. email r = email c)
                   (store (create_contact e' p' (store (create_contact e p db c)) c'))) = 1)"
proof -
  from assms have inv: "store_inv db" by (rule reachable_inv)
  then have d: "distinct (map email db)" by (simp add: store_inv_def)
  have one: "length (filter (\<lambda>r. email r = a) db) \<le> 1"
    using count_unique [OF d, of a] by simp
  have next_reachable: "reachable (handle e p req db)"
    using assms by (rule reachable.step)
  then have d': "distinct (map email (handle e p req db))"
    using reachable_inv by (auto simp: store_inv_def)
  have taken: "result (create_contact e p db c) = Inl Conflict \<and> http_status Conflict = 409
      \<and> store (create_contact e p db c) = db
      \<and> length (filter (\<lambda>r. email r = email c) (store (create_contact e p db c))) = 1"
    if "email c \<in> email ` set db"
    using create_contact_taken [OF that, of e p] count_unique [OF d, of "email c"] that
    by simp
  have twice: "result (create_contact e' p' (store (create_contact e p db c)) c') = Inl Conflict
      \<and> length (filter (\<lambda>r. email r = email c)
           (store (create_contact e' p' (store (create_contact e p db c)) c'))) = 1"
    if created: "result (create_contact e p db c) = Inr new" and same: "email c' = email c"
  proof -
    let ?db1 = "store (create_contact e p db c)"
    have "reachable (handle e p (Create c) db)" using assms by (rule reachable.step)
    then have "store_inv ?db1" using reachable_inv by simp
    then have d1: "distinct (map email ?db1)" by (simp add: store_inv_def)
    from create_contact_result [OF created] have "?db1 = db @ [new]" "email new = email c"
      by simp_all
    then have held: "email c' \<in> email ` set ?db1" using same by simp
    have "length (filter (\<lambda>r. email r = email c') ?db1) = 1"
      using count_unique [OF d1, of "email c'"] held by simp
    with create_contact_taken [OF held, of e' p'] same show ?thesis by simp
  qed
  from d one next_reachable d' taken twice show ?thesis by blast
qed

theorem email_uniqueness_invariant_witness:
  "reachable seed_contacts
   \<and> distinct (map email seed_contacts)
   \<and> result (create_contact
        \<lparr>HUNTER_API_KEY = ''MOCK_KEY_IF_NOT_SET'', client_get = answering (Raises RequestError)\<rparr>
        plain_platform seed_contacts
        \<lparr>first_name = ''Bob'', last_name = ''Jones'', email = ''alice@example.com'',
         phone = None\<rparr>) = Inl Conflict
   \<and> length (filter (\<lambda>r. email r = ''alice@example.com'')
        (store (create_contact
          \<lparr>HUNTER_API_KEY = ''MOCK_KEY_IF_NOT_SET'', client_get = answering (Raises RequestError)\<rparr>
          plain_platform seed_contacts
          \<lparr>first_name = ''Bob'', last_name = ''Jones'', email = ''alice@example.com'',
           phone = None\<rparr>))) = 1"
proof -
  let ?e = "\<lparr>HUNTER_API_KEY = ''MOCK_KEY_IF_NOT_SET'', client_get = answering (Raises RequestError)\<rparr>"
  let ?c = "\<lparr>first_name = ''Bob'', last_name = ''Jones'', email = ''alice@example.com'',
            phone = None\<rparr>"
  have held: "email ?c \<in> email ` set seed_contacts"
    by (simp add: seed_contacts_def)
  have "distinct (map email seed_contacts)
      \<and> result (create_contact ?e plain_platform seed_contacts ?c) = Inl Conflict
      \<and> length (filter (\<lambda>r. email r = email ?c)
           (store (create_contact ?e plain_platform seed_contacts ?c))) = 1"
    using held
      email_uniqueness_invariant [OF seed_reachable,
        where a = "''alice@example.com''" and req = Startup and e = ?e and e' = ?e
          and p = plain_platform and p' = plain_platform and c = ?c and c' = ?c]
    by blast
  then show ?thesis using seed_reachable by simp
qed

text \<open>
  C2. \<^verbatim>\<open>verify_email_hunter\<close> returns a score and a status for every email and every
  environment: no exception leaves it. With a credential, a response outside 2xx and a
  raised \<^verbatim>\<open>HTTPStatusError\<close> give 40, a raised \<^verbatim>\<open>RequestError\<close> gives 45, any other
  exception gives 48. When the verification a request performs does not succeed, the
  request fails exactly as it does with no credential configured: a create fails only with
  Conflict (or when the engine has no row id left), and a PUT on a table that satisfies
  its key constraints never ends in a server error.
\<close>

theorem verification_failure_absorbed:
  "(\<exists>v tr. verify_email_hunter e a = (Inr v, tr))
   \<and> (HUNTER_API_KEY e \<noteq> [] \<and> HUNTER_API_KEY e \<noteq> ''MOCK_KEY_IF_NOT_SET'' \<longrightarrow>
        (\<forall>r. client_get e (hunter_url (HUNTER_API_KEY e) a) = Returns r
               \<and> \<not> (200 \<le> status_code r \<and> status_code r < 300) \<longrightarrow>
             fst (verify_email_hunter e a) = Inr \<lparr>score = JInt 40, status = ''api_error''\<rparr>)
      \<and> (client_get e (hunter_url (HUNTER_API_KEY e) a) = Raises HTTPStatusError \<longrightarrow>
             fst (verify_email_hunter e a) = Inr \<lparr>score = JInt 40, status = ''api_error''\<rparr>)
      \<and> (client_get e (hunter_url (HUNTER_API_KEY e) a) = Raises RequestError \<longrightarrow>
             fst (verify_email_hunter e a) = Inr \<lparr>score = JInt 45, status = ''network_error''\<rparr>)
      \<and> (\<forall>x. client_get e (hunter_url (HUNTER_API_KEY e) a) = Raises x
               \<and> x \<noteq> HTTPStatusError \<and> x \<noteq> RequestError \<longrightarrow>
             fst (verify_email_hunter e a) =
               Inr \<lparr>score = JInt 48, status = ''unexpected_error''\<rparr>))
   \<and> (degraded e (email c) \<longrightarrow>
        failure (create_contact e p db c) =
          (if email c \<in> email ` set db then Some Conflict
           else if next_id p db = None then Some InternalServerError else None)
        \<and> failure (create_contact e p db c) =
            failure (create_contact (e\<lparr>HUNTER_API_KEY := []\<rparr>) p db c)
        \<and> failure (update_contact_put e p db i c) =
            failure (update_contact_put (e\<lparr>HUNTER_API_KEY := []\<rparr>) p db i c)
        \<and> (store_inv db \<and> int64 i \<longrightarrow>
             failure (update_contact_put e p db i c) \<noteq> Some InternalServerError))
   \<and> ((\<forall>w. contact_update.email u = Given w \<longrightarrow> degraded e (py_str w)) \<longrightarrow>
        failure (update_contact_patch e p db i u) =
          failure (update_contact_patch (e\<lparr>HUNTER_API_KEY := []\<rparr>) p db i u))"
proof -
  have total: "\<exists>v tr. verify_email_hunter e a = (Inr v, tr)"
    by (rule verify_returns)
  have fallback: "HUNTER_API_KEY e \<noteq> [] \<and> HUNTER_API_KEY e \<noteq> ''MOCK_KEY_IF_NOT_SET'' \<longrightarrow>
        (\<forall>r. client_get e (hunter_url (HUNTER_API_KEY e) a) = Returns r
               \<and> \<not> (200 \<le> status_code r \<and> status_code r < 300) \<longrightarrow>
             fst (verify_email_hunter e a) = Inr \<lparr>score = JInt 40, status = ''api_error''\<rparr>)
      \<and> (client_get e (hunter_url (HUNTER_API_KEY e) a) = Raises HTTPStatusError \<longrightarrow>
             fst (verify_email_hunter e a) = Inr \<lparr>score = JInt 40, status = ''api_error''\<rparr>)
      \<and> (client_get e (hunter_url (HUNTER_API_KEY e) a) = Raises RequestError \<longrightarrow>
             fst (verify_email_hunter e a) = Inr \<lparr>score = JInt 45, status = ''network_error''\<rparr>)
      \<and> (\<forall>x. client_get e (hunter_url (HUNTER_API_KEY e) a) = Raises x
               \<and> x \<noteq> HTTPStatusError \<and> x \<noteq> RequestError \<longrightarrow>
             fst (verify_email_hunter e a) =
               Inr \<lparr>score = JInt 48, status = ''unexpected_error''\<rparr>)"
    using verify_status_error [of e a] verify_raises [of e a] except_clauses_other
    by (auto simp del: except_clauses.simps) (simp_all)
  have keyless: "degraded (e\<lparr>HUNTER_API_KEY := []\<rparr>) b" for b
    by (simp add: degraded_def verify_without_key)
  have create: "failure (create_contact e p db c) =
          (if email c \<in> email ` set db then Some Conflict
           else if next_id p db = None then Some InternalServerError else None)
        \<and> failure (create_contact e p db c) =
            failure (create_contact (e\<lparr>HUNTER_API_KEY := []\<rparr>) p db c)"
    if "degraded e (email c)"
    using failure_create_degraded [OF that, of p db]
      failure_create_degraded [OF keyless [of "email c"], of p db]
    by simp
  have put: "failure (update_contact_put e p db i c) =
            failure (update_contact_put (e\<lparr>HUNTER_API_KEY := []\<rparr>) p db i c)
        \<and> (store_inv db \<and> int64 i \<longrightarrow>
             failure (update_contact_put e p db i c) \<noteq> Some InternalServerError)"
    if "degraded e (email c)"
    using failure_put_degraded [OF that, of p db i] failure_put_no_server_error [of db i e c p] that
    by blast
  have patch: "failure (update_contact_patch e p db i u) =
          failure (update_contact_patch (e\<lparr>HUNTER_API_KEY := []\<rparr>) p db i u)"
    if "\<forall>w. contact_update.email u = Given w \<longrightarrow> degraded e (py_str w)"
    using that by (rule failure_patch_degraded)
  from total fallback create put patch show ?thesis by blast
qed

theorem verification_failure_absorbed_witness:
  "fst (verify_email_hunter
         \<lparr>HUNTER_API_KEY = ''key'',
          client_get = answering (Returns \<lparr>status_code = 503, body = None\<rparr>)\<rparr>
         ''carol@example.com'') = Inr \<lparr>score = JInt 40, status = ''api_error''\<rparr>
   \<and> fst (verify_email_hunter
         \<lparr>HUNTER_API_KEY = ''key'', client_get = answering (Raises RequestError)\<rparr>
         ''carol@example.com'') = Inr \<lparr>score = JInt 45, status = ''network_error''\<rparr>
   \<and> fst (verify_email_hunter
         \<lparr>HUNTER_API_KEY = ''key'', client_get = answering (Raises (OtherException ''SSLError''))\<rparr>
         ''carol@example.com'') = Inr \<lparr>score = JInt 48, status = ''unexpected_error''\<rparr>
   \<and> degraded \<lparr>HUNTER_API_KEY = ''key'', client_get = answering (Raises RequestError)\<rparr>
         ''carol@example.com''
   \<and> failure (create_contact
         \<lparr>HUNTER_API_KEY = ''key'', client_get = answering (Raises RequestError)\<rparr>
         plain_platform seed_contacts
         \<lparr>first_name = ''Carol'', last_name = ''Diaz'', email = ''carol@example.com'',
          phone = None\<rparr>) = None"
proof -
  let ?e = "\<lparr>HUNTER_API_KEY = ''key'', client_get = answering (Raises RequestError)\<rparr>"
  let ?c = "\<lparr>first_name = ''Carol'', last_name = ''Diaz'', email = ''carol@example.com'',
          phone = None\<rparr>"
  have down: "degraded ?e (email ?c)"
    by (simp add: degraded_def verify_email_hunter_def try_body_def answering_def Let_def)
  have ids: "next_id plain_platform seed_contacts \<noteq> None"
    by (simp add: next_id_def seed_contacts_def Let_def)
  have fresh: "email ?c \<notin> email ` set seed_contacts"
    by (simp add: seed_contacts_def)
  from down ids fresh have "failure (create_contact ?e plain_platform seed_contacts ?c) = None"
    using verification_failure_absorbed
      [where e = ?e and a = "''carol@example.com''" and db = seed_contacts and c = ?c
         and p = plain_platform]
    by simp
  then show ?thesis
    using down
      verification_failure_absorbed
        [where e = "\<lparr>HUNTER_API_KEY = ''key'',
            client_get = answering (Returns \<lparr>status_code = 503, body = None\<rparr>)\<rparr>"
           and a = "''carol@example.com''"]
      verification_failure_absorbed [where e = ?e and a = "''carol@example.com''"]
      verification_failure_absorbed
        [where e = "\<lparr>HUNTER_API_KEY = ''key'',
            client_get = answering (Raises (OtherException ''SSLError''))\<rparr>"
           and a = "''carol@example.com''"]
    by (simp add: answering_def)
qed

text \<open>
  C3. A PUT or a PATCH whose email is the contact's current one keeps the score and
  calls no verification, and the other fields it gives are written. The code breaks the
  last part for a PATCH that gives an explicit \<^verbatim>\<open>null\<close> for a name: the schema of
  PATCH lets it through, the commit violates \<^verbatim>\<open>NOT NULL\<close> and the request ends in a
  server error with nothing written, also not the phone number given beside it. The
  schema of PUT and POST rejects the same member with 422, and the same PATCH without the
  \<^verbatim>\<open>null\<close> writes the phone number and keeps the score.
\<close>

theorem patch_null_first_name_writes_nothing:
  "patch_contacts e plain_platform seed_contacts 1
      (JObj [(''first_name'', JNull), (''email'', JStr ''alice@example.com''),
             (''phone'', JStr ''555-0000'')]) =
     \<lparr>result = Inl InternalServerError, store = seed_contacts, trace = []\<rparr>
   \<and> put_contacts e plain_platform seed_contacts 1
      (JObj [(''first_name'', JNull), (''last_name'', JStr ''Smith''),
             (''email'', JStr ''alice@example.com''), (''phone'', JStr ''555-0000'')]) =
     \<lparr>result = Inl UnprocessableEntity, store = seed_contacts, trace = []\<rparr>
   \<and> result (patch_contacts e plain_platform seed_contacts 1
      (JObj [(''email'', JStr ''alice@example.com''), (''phone'', JStr ''555-0000'')])) =
     Inr \<lparr>first_name = ''Alice'', last_name = ''Smith'', email = ''alice@example.com'',
          phone = Some ''555-0000'', id' = 1, hunter_score = JInt 85\<rparr>"
  by (simp add: patch_contacts_def put_contacts_def parse_contact_update_def
      parse_contact_create_def required_def optional_def name_value_def email_value_def
      plain_platform_def update_contact_patch_def select_by_id_def int64_def
      seed_contacts_def apply_and_commit_def apply_update_data_def commit_object_def
      update_row_def failed_def Let_def)

text \<open>
  C4. In a table that satisfies its key constraints, let A and B be two different rows.
  A PUT on A's id whose email is B's, and a PATCH on A's id that gives B's email, both
  fail with Conflict (409) and leave the table as it was; A's and B's rows read afterwards
  are the rows from before.
\<close>

theorem update_to_taken_email_conflicts:
  assumes "store_inv db" and "A \<in> set db" and "B \<in> set db" and "A \<noteq> B"
  shows "(email c = email B \<longrightarrow>
            result (update_contact_put e p db (id' A) c) = Inl Conflict
            \<and> store (update_contact_put e p db (id' A) c) = db
            \<and> read_contact (store (update_contact_put e p db (id' A) c)) (id' A) = Inr A
            \<and> read_contact (store (update_contact_put e p db (id' A) c)) (id' B) = Inr B)
         \<and> (contact_update.email u = Given (Some (email B)) \<longrightarrow>
            result (update_contact_patch e p db (id' A) u) = Inl Conflict
            \<and> store (update_contact_patch e p db (id' A) u) = db
            \<and> read_contact (store (update_contact_patch e p db (id' A) u)) (id' A) = Inr A
            \<and> read_contact (store (update_contact_patch e p db (id' A) u)) (id' B) = Inr B)
         \<and> http_status Conflict = 409"
proof -
  from assms(1) have ids: "distinct (map id' db)" and emails: "distinct (map email db)"
    by (simp_all add: store_inv_def)
  have a: "select_by_id db (id' A) = Inr (Some A)"
    using assms(1,2) by (rule select_by_id_member)
  have b: "select_by_id db (id' B) = Inr (Some B)"
    using assms(1,3) by (rule select_by_id_member)
  from emails have "inj_on email (set db)" by (simp add: distinct_map)
  with assms(2,3,4) have differ: "email B \<noteq> email A" by (auto dest: inj_onD)
  have held: "email B \<in> email ` set db" using assms(3) by (rule imageI)
  have put: "update_contact_put e p db (id' A) c = failed Conflict db [SelectByEmail (Some (email c))]"
    if "email c = email B"
    using update_contact_put_conflict [OF a, of c e p] differ held that by simp
  have patch: "update_contact_patch e p db (id' A) u =
      failed Conflict db [SelectByEmail (Some (email B))]"
    if "contact_update.email u = Given (Some (email B))"
    using update_contact_patch_conflict [OF a that differ held] .
  from put patch a b show ?thesis by (simp add: failed_def read_contact_def)
qed

theorem update_to_taken_email_conflicts_witness:
  "result (update_contact_put
       \<lparr>HUNTER_API_KEY = ''key'', client_get = answering (Raises RequestError)\<rparr>
       plain_platform seed_contacts 1
       \<lparr>first_name = ''Alice'', last_name = ''Smith'', email = ''bob.j@test.org'',
        phone = None\<rparr>) = Inl Conflict
   \<and> store (update_contact_put
       \<lparr>HUNTER_API_KEY = ''key'', client_get = answering (Raises RequestError)\<rparr>
       plain_platform seed_contacts 1
       \<lparr>first_name = ''Alice'', last_name = ''Smith'', email = ''bob.j@test.org'',
        phone = None\<rparr>) = seed_contacts
   \<and> result (update_contact_patch
       \<lparr>HUNTER_API_KEY = ''key'', client_get = answering (Raises RequestError)\<rparr>
       plain_platform seed_contacts 1
       \<lparr>contact_update.first_name = Unset, last_name = Unset,
        email = Given (Some ''bob.j@test.org''), phone = Unset\<rparr>) = Inl Conflict
   \<and> store (update_contact_patch
       \<lparr>HUNTER_API_KEY = ''key'', client_get = answering (Raises RequestError)\<rparr>
       plain_platform seed_contacts 1
       \<lparr>contact_update.first_name = Unset, last_name = Unset,
        email = Given (Some ''bob.j@test.org''), phone = Unset\<rparr>) = seed_contacts"
proof -
  let ?A = "\<lparr>first_name = ''Alice'', last_name = ''Smith'', email = ''alice@example.com'',
       phone = Some ''555-1234'', id' = 1, hunter_score = JInt 85\<rparr>"
  let ?B = "\<lparr>first_name = ''Bob'', last_name = ''Johnson'', email = ''bob.j@test.org'',
       phone = None, id' = 2, hunter_score = JInt 45\<rparr>"
  have inv: "store_inv seed_contacts" by (rule seed_contacts_inv)
  have A: "?A \<in> set seed_contacts" and B: "?B \<in> set seed_contacts" and AB: "?A \<noteq> ?B"
    by (simp_all add: seed_contacts_def)
  show ?thesis
    using update_to_taken_email_conflicts [OF inv A B AB,
        where c = "\<lparr>first_name = ''Alice'', last_name = ''Smith'',
                     email = ''bob.j@test.org'', phone = None\<rparr>"
          and e = "\<lparr>HUNTER_API_KEY = ''key'', client_get = answering (Raises RequestError)\<rparr>"
          and p = plain_platform
          and u = "\<lparr>contact_update.first_name = Unset, last_name = Unset,
                     email = Given (Some ''bob.j@test.org''), phone = Unset\<rparr>"]
    by simp
qed

text \<open>
  C5. Without a configured credential (the key is empty or the default), verification of
  any email returns score 50 with the status \<^verbatim>\<open>mocked_key\<close>; the trace holds the call
  alone, so no request is sent to the external service; any two such runs, on any two
  emails and whatever the service would answer, return the same score and status.
\<close>

theorem verify_mocked_without_credential:
  assumes "HUNTER_API_KEY e = [] \<or> HUNTER_API_KEY e = ''MOCK_KEY_IF_NOT_SET''"
  shows "verify_email_hunter e a =
           (Inr \<lparr>score = JInt 50, status = ''mocked_key''\<rparr>, [Verify a])
         \<and> (\<forall>e' b. HUNTER_API_KEY e' = [] \<or> HUNTER_API_KEY e' = ''MOCK_KEY_IF_NOT_SET''
               \<longrightarrow> fst (verify_email_hunter e' b) = fst (verify_email_hunter e a))"
  using assms by (simp add: verify_email_hunter_def)

theorem verify_mocked_without_credential_witness:
  "verify_email_hunter \<lparr>HUNTER_API_KEY = ''MOCK_KEY_IF_NOT_SET'',
        client_get = answering (Raises RequestError)\<rparr> ''alice@example.com'' =
     (Inr \<lparr>score = JInt 50, status = ''mocked_key''\<rparr>, [Verify ''alice@example.com''])
   \<and> fst (verify_email_hunter \<lparr>HUNTER_API_KEY = [],
        client_get = answering (Returns \<lparr>status_code = 200, body = None\<rparr>)\<rparr> ''bob.j@test.org'') =
     Inr \<lparr>score = JInt 50, status = ''mocked_key''\<rparr>"
  using verify_mocked_without_credential
    [of "\<lparr>HUNTER_API_KEY = ''MOCK_KEY_IF_NOT_SET'', client_get = answering (Raises RequestError)\<rparr>"
        "''alice@example.com''"]
  by simp

text \<open>
  C6, as the code has it. With a credential and a 2xx response, the result is
  \<^verbatim>\<open>verified\<close> exactly when the body is a JSON object whose member \<^verbatim>\<open>data\<close> is an
  object; the score is then that object's member \<^verbatim>\<open>score\<close>, or 50 when it has none.
  A 2xx response of any other shape (no JSON, no \<^verbatim>\<open>data\<close>, \<^verbatim>\<open>data\<close> not an
  object) ends in the last \<^verbatim>\<open>except\<close> clause: score 48, \<^verbatim>\<open>unexpected_error\<close>.
\<close>

theorem verify_success_response:
  assumes "HUNTER_API_KEY e \<noteq> []" and "HUNTER_API_KEY e \<noteq> ''MOCK_KEY_IF_NOT_SET''"
    and "client_get e (hunter_url (HUNTER_API_KEY e) a) = Returns r"
    and "200 \<le> status_code r" and "status_code r < 300"
  shows "(\<forall>items d. body r = Some (JObj items) \<and> map_of items ''data'' = Some (JObj d) \<longrightarrow>
            fst (verify_email_hunter e a) =
              Inr \<lparr>score = (case map_of d ''score'' of None \<Rightarrow> JInt 50 | Some s \<Rightarrow> s),
                   status = ''verified''\<rparr>)
         \<and> ((\<forall>items d. \<not> (body r = Some (JObj items) \<and> map_of items ''data'' = Some (JObj d))) \<longrightarrow>
            fst (verify_email_hunter e a) =
              Inr \<lparr>score = JInt 48, status = ''unexpected_error''\<rparr>)"
  using verify_success_shape [OF assms] verify_success_other_shape [OF assms] by blast

theorem verify_success_response_witness:
  "fst (verify_email_hunter
         \<lparr>HUNTER_API_KEY = ''key'',
          client_get = answering (Returns \<lparr>status_code = 200,
            body = Some (JObj [(''data'', JObj [(''status'', JStr ''valid''), (''score'', JInt 91)])])\<rparr>)\<rparr>
         ''alice@example.com'') = Inr \<lparr>score = JInt 91, status = ''verified''\<rparr>
   \<and> fst (verify_email_hunter
         \<lparr>HUNTER_API_KEY = ''key'',
          client_get = answering (Returns \<lparr>status_code = 200,
            body = Some (JObj [(''data'', JObj [(''status'', JStr ''valid'')])])\<rparr>)\<rparr>
         ''alice@example.com'') = Inr \<lparr>score = JInt 50, status = ''verified''\<rparr>"
  using verify_success_response
    [of "\<lparr>HUNTER_API_KEY = ''key'',
          client_get = answering (Returns \<lparr>status_code = 200,
            body = Some (JObj [(''data'', JObj [(''status'', JStr ''valid''), (''score'', JInt 91)])])\<rparr>)\<rparr>"
        "''alice@example.com''"
        "\<lparr>status_code = 200,
            body = Some (JObj [(''data'', JObj [(''status'', JStr ''valid''), (''score'', JInt 91)])])\<rparr>"]
    verify_success_response
    [of "\<lparr>HUNTER_API_KEY = ''key'',
          client_get = answering (Returns \<lparr>status_code = 200,
            body = Some (JObj [(''data'', JObj [(''status'', JStr ''valid'')])])\<rparr>)\<rparr>"
        "''alice@example.com''"
        "\<lparr>status_code = 200,
            body = Some (JObj [(''data'', JObj [(''status'', JStr ''valid'')])])\<rparr>"]
  by (simp add: answering_def)

text \<open>
  The claim as stated fails: a credential is configured, the response is a 200 whose
  body is the empty object, the score member is absent, and the result is not
  \<^verbatim>\<open>verified\<close> with score 50.
\<close>

theorem verify_success_response_counterexample:
  "fst (verify_email_hunter
         \<lparr>HUNTER_API_KEY = ''key'',
          client_get = answering (Returns \<lparr>status_code = 200, body = Some (JObj [])\<rparr>)\<rparr>
         ''alice@example.com'') = Inr \<lparr>score = JInt 48, status = ''unexpected_error''\<rparr>"
  by (simp add: verify_email_hunter_def try_body_def raise_for_status_def response_json_def
      answering_def Let_def)




text \<open>
  C8, as the code has it. Whenever the list handler returns a sequence, it consists of
  rows of the table in ascending order of id. For \<open>skip\<close> and \<open>limit\<close> that are not
  negative and fit 64 bits, it returns the slice of the table sorted by id at the
  positions \<open>skip\<close> to \<open>skip + limit - 1\<close>. The parameters are unchecked integers: a
  negative \<open>limit\<close> is no limit, and a negative \<open>skip\<close> skips nothing.
\<close>

theorem read_contacts_slice:
  "(read_contacts db skip limit = Inr contacts \<longrightarrow>
      sorted (map id' contacts) \<and> set contacts \<subseteq> set db)
   \<and> (0 \<le> skip \<and> skip < 2 ^ 63 \<and> 0 \<le> limit \<and> limit < 2 ^ 63 \<longrightarrow>
        read_contacts db skip limit = Inr (slice_positions (sort_key id' db) skip limit))
   \<and> (int64 skip \<and> int64 limit \<and> limit < 0 \<longrightarrow>
        read_contacts db skip limit = Inr (sql_offset skip (sort_key id' db)))
   \<and> (int64 skip \<and> int64 limit \<and> skip < 0 \<longrightarrow>
        read_contacts db skip limit = read_contacts db 0 limit)"
proof -
  have rows: "sorted (map id' contacts) \<and> set contacts \<subseteq> set db"
    if "read_contacts db skip limit = Inr contacts"
    using that read_contacts_cases [of db skip limit] page_sorted [of limit skip db]
      page_rows [of limit skip db]
    by auto
  have slice: "read_contacts db skip limit = Inr (slice_positions (sort_key id' db) skip limit)"
    if "0 \<le> skip" "skip < 2 ^ 63" "0 \<le> limit" "limit < 2 ^ 63"
    using that
    by (simp add: slice_positions_take_drop read_contacts_def select_page_def int64_def
        sql_limit_def sql_offset_def)
  have unlimited: "read_contacts db skip limit = Inr (sql_offset skip (sort_key id' db))"
    if "int64 skip" "int64 limit" "limit < 0"
    using that by (simp add: read_contacts_def select_page_def sql_limit_def)
  have unskipped: "read_contacts db skip limit = read_contacts db 0 limit"
    if "int64 skip" "int64 limit" "skip < 0"
    using that by (simp add: read_contacts_def select_page_def sql_offset_def int64_def)
  from rows slice unlimited unskipped show ?thesis by blast
qed

theorem read_contacts_slice_witness:
  "read_contacts seed_contacts 1 5 = Inr (slice_positions (sort_key id' seed_contacts) 1 5)
   \<and> read_contacts seed_contacts (- 3) (- 1) = read_contacts seed_contacts 0 (- 1)"
proof -
  have bounds: "(0::int) \<le> 1 \<and> (1::int) < 2 ^ 63 \<and> (0::int) \<le> 5 \<and> (5::int) < 2 ^ 63"
    and negative: "int64 (- 3) \<and> int64 (- 1) \<and> (- 3::int) < 0"
    by (simp_all add: int64_def)
  from bounds negative show ?thesis
    using read_contacts_slice [of seed_contacts 1 5]
      read_contacts_slice [of seed_contacts "- 3" "- 1"]
    by blast
qed

text \<open>
  The claim as stated fails for a negative \<open>limit\<close>: with \<open>skip = 0\<close> and
  \<open>limit = -1\<close> the positions 0 to -2 are none, and the handler returns both rows.
\<close>

theorem read_contacts_slice_counterexample:
  "slice_positions (sort_key id' seed_contacts) 0 (- 1) = []
   \<and> read_contacts seed_contacts 0 (- 1) = Inr seed_contacts"
  by (simp add: slice_positions_def read_contacts_def select_page_def int64_def
      sql_limit_def sql_offset_def seed_contacts_def)

text \<open>
  C9. The score of the record a create, PUT or PATCH returns is always one of two values:
  the score the row had before the request, or the value the engine stored for the score
  that \<^verbatim>\<open>verify_email_hunter\<close> returned during the request (for a create always the
  latter). The table afterwards is the old one with the returned record added or put in
  the place of the row with its id, so no other row's score changes. A member
  \<^verbatim>\<open>hunter_score\<close> of the request body has no effect at all: two bodies that differ
  only there get the same reply and leave the same table.
\<close>

theorem hunter_score_only_from_verification:
  "(result (create_contact e p db c) = Inr new \<longrightarrow>
      (\<exists>v tr. verify_email_hunter e (email c) = (Inr v, tr)
         \<and> bind_score p (score v) = Inr (hunter_score new))
      \<and> store (create_contact e p db c) = db @ [new])
   \<and> (result (update_contact_put e p db i c) = Inr new \<longrightarrow>
      (\<exists>old. select_by_id db i = Inr (Some old)
         \<and> (hunter_score new = hunter_score old
            \<or> (\<exists>v tr. verify_email_hunter e (email c) = (Inr v, tr)
                  \<and> bind_score p (score v) = Inr (hunter_score new)))
         \<and> store (update_contact_put e p db i c) =
             map (\<lambda>r. if id' r = id' new then new else r) db))
   \<and> (result (update_contact_patch e p db i u) = Inr new \<longrightarrow>
      (\<exists>old. select_by_id db i = Inr (Some old)
         \<and> (hunter_score new = hunter_score old
            \<or> (\<exists>w v tr. contact_update.email u = Given w
                  \<and> verify_email_hunter e (py_str w) = (Inr v, tr)
                  \<and> bind_score p (score v) = Inr (hunter_score new)))
         \<and> store (update_contact_patch e p db i u) =
             map (\<lambda>r. if id' r = id' new then new else r) db))
   \<and> ((\<forall>k. k \<noteq> ''hunter_score'' \<longrightarrow> map_of items k = map_of items' k) \<longrightarrow>
        post_contacts e p db (JObj items) = post_contacts e p db (JObj items')
        \<and> put_contacts e p db i (JObj items) = put_contacts e p db i (JObj items')
        \<and> patch_contacts e p db i (JObj items) = patch_contacts e p db i (JObj items'))"
proof -
  have bodies: "post_contacts e p db (JObj items) = post_contacts e p db (JObj items')
        \<and> put_contacts e p db i (JObj items) = put_contacts e p db i (JObj items')
        \<and> patch_contacts e p db i (JObj items) = patch_contacts e p db i (JObj items')"
    if "\<forall>k. k \<noteq> ''hunter_score'' \<longrightarrow> map_of items k = map_of items' k"
    using parse_contact_create_ignores [OF that, of p] parse_contact_update_ignores [OF that, of p]
    by (simp add: post_contacts_def put_contacts_def patch_contacts_def)
  from bodies show ?thesis
    using create_contact_result [of e p db c new] update_contact_put_result [of e p db i c new]
      update_contact_patch_result [of e p db i u new]
    by blast
qed

theorem hunter_score_only_from_verification_witness:
  "result (post_contacts
      \<lparr>HUNTER_API_KEY = ''MOCK_KEY_IF_NOT_SET'', client_get = answering (Raises RequestError)\<rparr>
      plain_platform seed_contacts
      (JObj [(''hunter_score'', JInt 99), (''first_name'', JStr ''Carol''),
             (''last_name'', JStr ''Diaz''), (''email'', JStr ''carol@example.com'')])) =
     Inr \<lparr>first_name = ''Carol'', last_name = ''Diaz'', email = ''carol@example.com'',
          phone = None, id' = 3, hunter_score = JInt 50\<rparr>
   \<and> (\<exists>v tr. verify_email_hunter
         \<lparr>HUNTER_API_KEY = ''MOCK_KEY_IF_NOT_SET'', client_get = answering (Raises RequestError)\<rparr>
         ''carol@example.com'' = (Inr v, tr) \<and> bind_score plain_platform (score v) = Inr (JInt 50))"
proof -
  let ?e = "\<lparr>HUNTER_API_KEY = ''MOCK_KEY_IF_NOT_SET'', client_get = answering (Raises RequestError)\<rparr>"
  let ?c = "\<lparr>first_name = ''Carol'', last_name = ''Diaz'', email = ''carol@example.com'',
       phone = None\<rparr>"
  let ?new = "\<lparr>first_name = ''Carol'', last_name = ''Diaz'', email = ''carol@example.com'',
       phone = None, id' = 3, hunter_score = JInt 50\<rparr>"
  let ?plain = "[(''first_name'', JStr ''Carol''), (''last_name'', JStr ''Diaz''),
       (''email'', JStr ''carol@example.com'')]"
  let ?items = "(''hunter_score'', JInt 99) # ?plain"
  have parsed: "parse_contact_create plain_platform (JObj ?plain) = Some ?c"
    by (simp add: parse_contact_create_def required_def optional_def name_value_def
        email_value_def plain_platform_def)
  have created: "result (create_contact ?e plain_platform seed_contacts ?c) = Inr ?new"
    by (simp add: create_contact_def verify_email_hunter_def select_by_email_def
        insert_row_def next_id_def seed_contacts_def Let_def int64_def)
  have same: "\<forall>k. k \<noteq> ''hunter_score'' \<longrightarrow> map_of ?items k = map_of ?plain k"
    by simp
  note claim = hunter_score_only_from_verification
      [where e = ?e and p = plain_platform and db = seed_contacts and c = ?c and new = ?new
         and items = ?items and items' = ?plain]
  from same claim
  have "post_contacts ?e plain_platform seed_contacts (JObj ?items) =
        post_contacts ?e plain_platform seed_contacts (JObj ?plain)"
    by blast
  with parsed created
  have one: "result (post_contacts ?e plain_platform seed_contacts (JObj ?items)) = Inr ?new"
    by (simp add: post_contacts_def)
  from created claim
  have "\<exists>v tr. verify_email_hunter ?e (email ?c) = (Inr v, tr)
      \<and> bind_score plain_platform (score v) = Inr (hunter_score ?new)"
    by blast
  with one show ?thesis by simp
qed

text \<open>
  C10. A PATCH that gives the contact's current email is treated as no email change: no
  search of the table for the email, no verification, the score kept, and the request
  succeeds. The code breaks the last part when the same body gives an explicit
  \<^verbatim>\<open>null\<close> for a name: the request below, on an existing contact and with the email
  it already has, ends in a server error, while it succeeds without the \<^verbatim>\<open>null\<close>
  member.
\<close>

theorem patch_same_email_null_last_name_fails:
  "read_contact seed_contacts 2 =
     Inr \<lparr>first_name = ''Bob'', last_name = ''Johnson'', email = ''bob.j@test.org'',
          phone = None, id' = 2, hunter_score = JInt 45\<rparr>
   \<and> patch_contacts e plain_platform seed_contacts 2
      (JObj [(''email'', JStr ''bob.j@test.org''), (''last_name'', JNull)]) =
     \<lparr>result = Inl InternalServerError, store = seed_contacts, trace = []\<rparr>
   \<and> result (patch_contacts e plain_platform seed_contacts 2
      (JObj [(''email'', JStr ''bob.j@test.org'')])) =
     Inr \<lparr>first_name = ''Bob'', last_name = ''Johnson'', email = ''bob.j@test.org'',
          phone = None, id' = 2, hunter_score = JInt 45\<rparr>
   \<and> trace (patch_contacts e plain_platform seed_contacts 2
      (JObj [(''email'', JStr ''bob.j@test.org'')])) = []"
  by (simp add: patch_contacts_def parse_contact_update_def optional_def name_value_def
      email_value_def plain_platform_def update_contact_patch_def select_by_id_def int64_def
      read_contact_def seed_contacts_def apply_and_commit_def apply_update_data_def
      commit_object_def update_row_def failed_def Let_def)

end
